theory Spec2Isabelle
  imports Complex_Main "HOL-Library.AList" "HOL-Library.Log_Nat"
begin

section \<open>Python values that occur in the client\<close>

text \<open>
  The client of \<^verbatim>\<open>dingz/dingz.py\<close> stores and returns what the JSON decoder produced.
  A Python \<^verbatim>\<open>float\<close> is an IEEE binary64 number; it is represented by its exact rational
  value (the two zeros are identified, as Python's \<^verbatim>\<open>==\<close> does), or by one of the three
  non-finite values, which Python's decoder accepts as \<^verbatim>\<open>Infinity\<close>, \<^verbatim>\<open>-Infinity\<close>
  and \<^verbatim>\<open>NaN\<close>.
\<close>

datatype pyfloat = Finite rat | PosInf | NegInf | NaN

text \<open>
  A decoded JSON value. \<open>JNull\<close> is Python's \<^verbatim>\<open>None\<close>; a \<^verbatim>\<open>dict\<close> is an association
  list in insertion order.
\<close>

datatype json =
    JNull
  | JBool bool
  | JInt int
  | JFloat pyfloat
  | JString string
  | JArray "json list"
  | JObject "(string \<times> json) list"

text \<open>
  The exceptions that the modelled code can raise. \<open>TransportFailure\<close> is the one error
  kind of the call helper; the others are raised by the Python operations on values.
\<close>

datatype py_error = TransportFailure | KeyError string | TypeError | OverflowError

subsection \<open>Rounding of floats\<close>

definition round_half_even :: "rat \<Rightarrow> int" where
  "round_half_even x =
     (let f = \<lfloor>x\<rfloor>; r = x - of_int f
      in if r < 1 / 2 then f
         else if 1 / 2 < r then f + 1
         else if even f then f else f + 1)"

definition pow2 :: "int \<Rightarrow> rat" where
  "pow2 e = (if 0 \<le> e then 2 ^ nat e else 1 / 2 ^ nat (- e))"

text \<open>The binary exponent \<open>\<lfloor>log\<^sub>2 a\<rfloor>\<close> of a positive rational.\<close>

definition ilog2 :: "rat \<Rightarrow> int" where
  "ilog2 a = (if 1 \<le> a then bitlen \<lfloor>a\<rfloor> - 1 else - bitlen (\<lceil>1 / a\<rceil> - 1))"

text \<open>
  The binary64 number nearest to a rational (ties to even): 53 significant bits, least
  exponent \<open>-1022\<close> (below it the spacing stays \<open>pow2 (- 1074)\<close>), and an infinity when
  the rounded magnitude reaches \<open>pow2 1024\<close>.
  This is how a decimal literal such as \<^verbatim>\<open>21.37\<close> becomes a \<^verbatim>\<open>float\<close>.
\<close>

definition to_binary64 :: "rat \<Rightarrow> pyfloat" where
  "to_binary64 x =
     (if x = 0 then Finite 0
      else let a = \<bar>x\<bar>;
               e = max (ilog2 a) (- 1022);
               q = e - 52;
               y = of_int (round_half_even (a / pow2 q)) * pow2 q
           in if 1024 \<le> ilog2 y then (if 0 < x then PosInf else NegInf)
              else Finite (sgn x * y))"

text \<open>
  \<^verbatim>\<open>float.__round__(x, ndigits)\<close> for \<^verbatim>\<open>ndigits \<ge> 0\<close>: a non-finite \<^verbatim>\<open>x\<close> is returned
  as it is; otherwise the exact value of \<^verbatim>\<open>x\<close> is rounded correctly (half to even) to
  \<^verbatim>\<open>ndigits\<close> decimal places and the decimal result is converted back to a float
  (\<^verbatim>\<open>OverflowError\<close> if that is no finite float).
\<close>

definition float_round :: "pyfloat \<Rightarrow> nat \<Rightarrow> py_error + pyfloat" where
  "float_round x ndigits =
     (case x of
        Finite r \<Rightarrow>
          (case to_binary64 (of_int (round_half_even (r * 10 ^ ndigits)) / 10 ^ ndigits) of
             Finite y \<Rightarrow> Inr (Finite y)
           | _ \<Rightarrow> Inl OverflowError)
      | _ \<Rightarrow> Inr x)"

text \<open>
  The builtin \<^verbatim>\<open>round(v, ndigits)\<close> with \<^verbatim>\<open>ndigits \<ge> 0\<close> on the values above: an
  \<^verbatim>\<open>int\<close> is returned unchanged, a \<^verbatim>\<open>bool\<close> (a subclass of \<^verbatim>\<open>int\<close>) as the integer
  0 or 1, a \<^verbatim>\<open>float\<close> rounded; \<^verbatim>\<open>None\<close>, \<^verbatim>\<open>str\<close>, \<^verbatim>\<open>list\<close> and \<^verbatim>\<open>dict\<close> define
  no \<^verbatim>\<open>__round__\<close> and raise \<^verbatim>\<open>TypeError\<close>.
\<close>

fun py_round :: "json \<Rightarrow> nat \<Rightarrow> py_error + json" where
  "py_round (JInt n) ndigits = Inr (JInt n)"
| "py_round (JBool b) ndigits = Inr (JInt (if b then 1 else 0))"
| "py_round (JFloat x) ndigits =
     (case float_round x ndigits of Inl e \<Rightarrow> Inl e | Inr y \<Rightarrow> Inr (JFloat y))"
| "py_round JNull ndigits = Inl TypeError"
| "py_round (JString s) ndigits = Inl TypeError"
| "py_round (JArray xs) ndigits = Inl TypeError"
| "py_round (JObject kvs) ndigits = Inl TypeError"

text \<open>
  \<^verbatim>\<open>v[key]\<close> for a string key: the entry of a \<^verbatim>\<open>dict\<close> or \<^verbatim>\<open>KeyError\<close>; every other
  value either takes no subscript or takes integer subscripts only, so \<^verbatim>\<open>TypeError\<close>.
\<close>

fun getitem :: "json \<Rightarrow> string \<Rightarrow> py_error + json" where
  "getitem (JObject kvs) k = (case map_of kvs k of Some v \<Rightarrow> Inr v | None \<Rightarrow> Inl (KeyError k))"
| "getitem _ k = Inl TypeError"

text \<open>The builtin \<^verbatim>\<open>bool(v)\<close>: Python's truth value of a decoded JSON value.\<close>

fun py_bool :: "json \<Rightarrow> bool" where
  "py_bool JNull = False"
| "py_bool (JBool b) = b"
| "py_bool (JInt n) = (n \<noteq> 0)"
| "py_bool (JFloat x) = (x \<noteq> Finite 0)"
| "py_bool (JString s) = (s \<noteq> [])"
| "py_bool (JArray xs) = (xs \<noteq> [])"
| "py_bool (JObject kvs) = (kvs \<noteq> [])"

section \<open>URLs\<close>

text \<open>
  Modelled from the spec: the URL type of the library \<^verbatim>\<open>yarl\<close> (\<^verbatim>\<open>URL\<close>, \<^verbatim>\<open>URL.build\<close>,
  \<^verbatim>\<open>URL.join\<close>) is not part of the repository. The spec asks for the standard
  relative-reference resolution, so a URL is the five components of RFC 3986.
\<close>

record url =
  scheme :: "string option"
  authority :: "string option"
  path :: string
  query :: "string option"
  fragment :: "string option"

text \<open>
  Modelled from the spec: \<^verbatim>\<open>URL(s)\<close>, missing with \<^verbatim>\<open>yarl\<close>, splits a string into the
  components as the expression of RFC 3986, appendix B, does; \<open>split_first\<close> cuts a string
  at the first occurrence of a character.
\<close>

definition split_first :: "char \<Rightarrow> string \<Rightarrow> string \<times> string option" where
  "split_first c s =
     (let pre = takeWhile (\<lambda>x. x \<noteq> c) s
      in if length pre < length s then (pre, Some (drop (length pre + 1) s))
         else (s, None))"

definition URL :: "string \<Rightarrow> url" where
  "URL s =
     (let (s1, frag) = split_first (CHR ''#'') s;
          (s2, qry) = split_first (CHR ''?'') s1;
          pre = takeWhile (\<lambda>x. x \<notin> set '':/?#'') s2;
          (sch, s3) = (if pre \<noteq> [] \<and> take 1 (drop (length pre) s2) = '':''
                       then (Some pre, drop (length pre + 1) s2)
                       else (None, s2));
          (auth, p) = (if take 2 s3 = ''//''
                       then (Some (takeWhile (\<lambda>x. x \<noteq> CHR ''/'') (drop 2 s3)),
                             dropWhile (\<lambda>x. x \<noteq> CHR ''/'') (drop 2 s3))
                       else (None, s3))
      in \<lparr>scheme = sch, authority = auth, path = p, query = qry, fragment = frag\<rparr>)"

text \<open>
  Modelled from the spec: \<^verbatim>\<open>URL.build(scheme=..., host=...)\<close>, missing with \<^verbatim>\<open>yarl\<close>; the
  host is taken as it is given.
\<close>

definition URL_build :: "string \<Rightarrow> string \<Rightarrow> url" where
  "URL_build sch host =
     \<lparr>scheme = Some sch, authority = Some host, path = [], query = None, fragment = None\<rparr>"

text \<open>
  Modelled from the spec: \<^verbatim>\<open>str(url)\<close>, missing with \<^verbatim>\<open>yarl\<close>, as the recomposition of
  RFC 3986, section 5.3.
\<close>

definition url_str :: "url \<Rightarrow> string" where
  "url_str u =
     (case scheme u of None \<Rightarrow> [] | Some s \<Rightarrow> s @ '':'')
     @ (case authority u of None \<Rightarrow> [] | Some a \<Rightarrow> ''//'' @ a)
     @ path u
     @ (case query u of None \<Rightarrow> [] | Some q \<Rightarrow> ''?'' @ q)
     @ (case fragment u of None \<Rightarrow> [] | Some f \<Rightarrow> ''#'' @ f)"

text \<open>
  Modelled from the spec: the removal of dot segments of RFC 3986, section 5.2.4, which
  the resolution uses and which is missing with \<^verbatim>\<open>yarl\<close>. \<open>remove_last_segment\<close> gives the
  output buffer without its last segment and the \<^verbatim>\<open>/\<close> before it; \<open>remove_dots\<close> is the
  loop over the input buffer, steps A to E in their order.
\<close>

definition remove_last_segment :: "string \<Rightarrow> string" where
  "remove_last_segment out = rev (drop 1 (dropWhile (\<lambda>x. x \<noteq> CHR ''/'') (rev out)))"

function remove_dots :: "string \<Rightarrow> string \<Rightarrow> string" where
  "remove_dots inp out =
     (if inp = [] then out
      else if take 3 inp = ''../'' then remove_dots (drop 3 inp) out
      else if take 2 inp = ''./'' then remove_dots (drop 2 inp) out
      else if take 3 inp = ''/./'' then remove_dots (drop 2 inp) out
      else if inp = ''/.'' then remove_dots ''/'' out
      else if take 4 inp = ''/../'' then remove_dots (drop 3 inp) (remove_last_segment out)
      else if inp = ''/..'' then remove_dots ''/'' (remove_last_segment out)
      else if inp = ''.'' \<or> inp = ''..'' then out
      else remove_dots (dropWhile (\<lambda>x. x \<noteq> CHR ''/'') (tl inp))
             (out @ hd inp # takeWhile (\<lambda>x. x \<noteq> CHR ''/'') (tl inp)))"
  by pat_completeness auto
termination
  by (relation "measure (\<lambda>(inp, out). length inp)")
     (auto intro!: le_less_trans [OF length_dropWhile_le])

definition remove_dot_segments :: "string \<Rightarrow> string" where
  "remove_dot_segments p = remove_dots p []"

text \<open>
  Modelled from the spec: \<^verbatim>\<open>URL.join\<close>, missing with \<^verbatim>\<open>yarl\<close>, as the resolution of a
  reference against a base of RFC 3986, section 5.2.2, with the merge of paths of
  section 5.2.3.
\<close>

definition merge_paths :: "url \<Rightarrow> string \<Rightarrow> string" where
  "merge_paths base rpath =
     (if authority base \<noteq> None \<and> path base = [] then CHR ''/'' # rpath
      else rev (dropWhile (\<lambda>x. x \<noteq> CHR ''/'') (rev (path base))) @ rpath)"

definition join :: "url \<Rightarrow> url \<Rightarrow> url" where
  "join base r =
     (if scheme r \<noteq> None then
        r\<lparr>path := remove_dot_segments (path r)\<rparr>
      else if authority r \<noteq> None then
        r\<lparr>scheme := scheme base, path := remove_dot_segments (path r)\<rparr>
      else if path r = [] then
        \<lparr>scheme = scheme base, authority = authority base, path = path base,
         query = (if query r \<noteq> None then query r else query base), fragment = fragment r\<rparr>
      else if take 1 (path r) = ''/'' then
        \<lparr>scheme = scheme base, authority = authority base,
         path = remove_dot_segments (path r), query = query r, fragment = fragment r\<rparr>
      else
        \<lparr>scheme = scheme base, authority = authority base,
         path = remove_dot_segments (merge_paths base (path r)),
         query = query r, fragment = fragment r\<rparr>)"

section \<open>The client and its surroundings\<close>

text \<open>
  The module \<^verbatim>\<open>dingz/constants.py\<close> is not part of the sources at hand; its strings are
  a parameter of the model, one field for each name that \<^verbatim>\<open>dingz.py\<close> imports. The
  spec asks of them only that the endpoints have different names.
\<close>

record constants =
  API :: string
  BUTTON_ACTIONS :: string
  DEVICE_INFO :: string
  FRONT_LED_GET :: string
  FRONT_LED_SET :: string
  INPUT_CONFIGURATION :: string
  LIGHT :: string
  PIR_CONFIGURATION :: string
  PUCK :: string
  SETTINGS :: string
  TEMPERATURE :: string
  THERMOSTAT_CONFIGURATION :: string

text \<open>
  An HTTP session is an object outside the client; only its identity matters here. The
  caller's sessions are \<open>Supplied\<close>, those that the call helper makes are \<open>Created\<close>.
  The surroundings of the client are the trace of what it has done to them so far: the
  requests it sent, the sessions it made, the calls of a session's \<^verbatim>\<open>close\<close> and the
  closing of a session that such a call brings about, and what it printed. The device
  (and the network before it) answers the request at the end of a trace with a body or
  not at all.
\<close>

datatype session = Supplied nat | Created nat

datatype http_method = GET | POST

datatype event =
    Request session http_method url json
  | SessionCreated session
  | CloseCalled session
  | SessionClosed session
  | Printed json

type_synonym world = "event list"

datatype reply = Failure | Body json

type_synonym device = "event list \<Rightarrow> reply"

text \<open>
  The attributes of a \<^verbatim>\<open>Dingz\<close> object; \<^verbatim>\<open>self._x\<close> is the field \<open>u_x\<close>.
\<close>

record dingz =
  u_close_session :: bool
  u_host :: string
  u_session :: "session option"
  u_device_details :: json
  u_catch_all :: "(string \<times> json) list"
  u_button_action :: json
  u_temperature :: json
  u_intensity :: json
  u_day :: json
  u_night :: json
  u_hour_of_day :: json
  uri :: url

text \<open>The result of a method: the exception it raised or the value it returned.\<close>

type_synonym outcome = "(py_error + json) \<times> dingz \<times> world"

definition init :: "constants \<Rightarrow> string \<Rightarrow> session option \<Rightarrow> dingz" where
  "init c host session =
     \<lparr>u_close_session = False,
      u_host = host,
      u_session = session,
      u_device_details = JNull,
      u_catch_all = [],
      u_button_action = JNull,
      u_temperature = JNull,
      u_intensity = JNull,
      u_day = JNull,
      u_night = JNull,
      u_hour_of_day = JNull,
      uri = join (URL_build ''http'' host) (URL (API c))\<rparr>"

text \<open>
  Modelled from the spec: the first step of the call helper \<^verbatim>\<open>make_call\<close> of
  \<^verbatim>\<open>dingz/__init__.py\<close>, which is not part of the sources at hand. By the spec the
  helper makes the session at first use when the caller gave none, and records that the
  client owns it.
\<close>

definition ensure_session :: "dingz \<times> world \<Rightarrow> session \<times> dingz \<times> world" where
  "ensure_session st =
     (let (d, w) = st
      in case u_session d of
           None \<Rightarrow>
             (Created (length w),
              d\<lparr>u_session := Some (Created (length w)), u_close_session := True\<rparr>,
              w @ [SessionCreated (Created (length w))])
         | Some s \<Rightarrow> (s, d, w))"

text \<open>
  Modelled from the spec: the call helper \<^verbatim>\<open>make_call\<close>, missing as said. By the spec it
  performs exactly one request over the session, raises the one error kind when the
  request fails, and returns the decoded body (or the text) otherwise.
\<close>

definition make_call ::
  "device \<Rightarrow> dingz \<times> world \<Rightarrow> url \<Rightarrow> http_method \<Rightarrow> json \<Rightarrow> outcome" where
  "make_call dev st target method data =
     (let (s, d1, w1) = ensure_session st;
          w2 = w1 @ [Request s method target data]
      in case dev w2 of
           Failure \<Rightarrow> (Inl TransportFailure, d1, w2)
         | Body b \<Rightarrow> (Inr b, d1, w2))"

subsection \<open>The methods of \<^verbatim>\<open>Dingz\<close>\<close>

definition get_device_info :: "constants \<Rightarrow> device \<Rightarrow> dingz \<times> world \<Rightarrow> outcome" where
  "get_device_info c dev st =
     (let url = join (uri (fst st)) (URL (DEVICE_INFO c))
      in case make_call dev st url GET JNull of
           (Inl e, d, w) \<Rightarrow> (Inl e, d, w)
         | (Inr response, d, w) \<Rightarrow> (Inr JNull, d\<lparr>u_device_details := response\<rparr>, w))"

definition info_endpoints :: "constants \<Rightarrow> string list" where
  "info_endpoints c =
     [PUCK c, DEVICE_INFO c, SETTINGS c, PIR_CONFIGURATION c, THERMOSTAT_CONFIGURATION c,
      INPUT_CONFIGURATION c, BUTTON_ACTIONS c]"

text \<open>The \<^verbatim>\<open>for\<close> loop of \<^verbatim>\<open>get_info\<close> over the endpoints that are left.\<close>

fun get_info_loop :: "device \<Rightarrow> string list \<Rightarrow> dingz \<times> world \<Rightarrow> outcome" where
  "get_info_loop dev [] st = (Inr JNull, st)"
| "get_info_loop dev (endpoint # rest) st =
     (let url = join (uri (fst st)) (URL endpoint)
      in case make_call dev st url GET JNull of
           (Inl e, d, w) \<Rightarrow> (Inl e, d, w)
         | (Inr r, d, w) \<Rightarrow>
             get_info_loop dev rest
               (d\<lparr>u_catch_all := AList.update endpoint r (u_catch_all d)\<rparr>, w))"

definition get_info :: "constants \<Rightarrow> device \<Rightarrow> dingz \<times> world \<Rightarrow> outcome" where
  "get_info c dev st = get_info_loop dev (info_endpoints c) st"

definition get_temperature :: "constants \<Rightarrow> device \<Rightarrow> dingz \<times> world \<Rightarrow> outcome" where
  "get_temperature c dev st =
     (let url = join (uri (fst st)) (URL (TEMPERATURE c))
      in case make_call dev st url GET JNull of
           (Inl e, d, w) \<Rightarrow> (Inl e, d, w)
         | (Inr response, d, w) \<Rightarrow>
             (case getitem response ''temperature'' of
                Inl e \<Rightarrow> (Inl e, d, w)
              | Inr t \<Rightarrow> (Inr JNull, d\<lparr>u_temperature := t\<rparr>, w)))"

definition get_button_action :: "constants \<Rightarrow> device \<Rightarrow> dingz \<times> world \<Rightarrow> outcome" where
  "get_button_action c dev st =
     (let url = join (uri (fst st)) (URL (BUTTON_ACTIONS c))
      in case make_call dev st url GET JNull of
           (Inl e, d, w) \<Rightarrow> (Inl e, d, w)
         | (Inr response, d, w) \<Rightarrow> (Inr JNull, d\<lparr>u_button_action := response\<rparr>, w))"

definition get_light :: "constants \<Rightarrow> device \<Rightarrow> dingz \<times> world \<Rightarrow> outcome" where
  "get_light c dev st =
     (let url = join (uri (fst st)) (URL (LIGHT c))
      in case make_call dev st url GET JNull of
           (Inl e, d, w) \<Rightarrow> (Inl e, d, w)
         | (Inr response, d, w) \<Rightarrow>
             (let w1 = w @ [Printed response]
              in case getitem response ''intensity'' of
                   Inl e \<Rightarrow> (Inl e, d, w1)
                 | Inr i \<Rightarrow>
                     (let d1 = d\<lparr>u_intensity := i\<rparr>
                      in case getitem response ''state'' of
                           Inl e \<Rightarrow> (Inl e, d1, w1)
                         | Inr h \<Rightarrow> (Inr JNull, d1\<lparr>u_hour_of_day := h\<rparr>, w1))))"

definition enabled :: "constants \<Rightarrow> device \<Rightarrow> dingz \<times> world \<Rightarrow> outcome" where
  "enabled c dev st =
     (let url = join (uri (fst st)) (URL (FRONT_LED_GET c))
      in case make_call dev st url GET JNull of
           (Inl e, d, w) \<Rightarrow> (Inl e, d, w)
         | (Inr response, d, w) \<Rightarrow>
             (case getitem response ''on'' of
                Inl e \<Rightarrow> (Inl e, d, w)
              | Inr v \<Rightarrow> (Inr (JBool (py_bool v)), d, w)))"

definition turn_on :: "constants \<Rightarrow> device \<Rightarrow> dingz \<times> world \<Rightarrow> outcome" where
  "turn_on c dev st =
     (let data = JObject [(''action'', JString ''on'')];
          url = join (uri (fst st)) (URL (FRONT_LED_SET c))
      in case make_call dev st url POST data of
           (Inl e, d, w) \<Rightarrow> (Inl e, d, w)
         | (Inr response, d, w) \<Rightarrow> (Inr JNull, d, w))"

definition turn_off :: "constants \<Rightarrow> device \<Rightarrow> dingz \<times> world \<Rightarrow> outcome" where
  "turn_off c dev st =
     (let data = JObject [(''action'', JString ''off'')];
          url = join (uri (fst st)) (URL (FRONT_LED_SET c))
      in case make_call dev st url POST data of
           (Inl e, d, w) \<Rightarrow> (Inl e, d, w)
         | (Inr response, d, w) \<Rightarrow> (Inr JNull, d, w))"

text \<open>The properties, which read the attributes.\<close>

definition device_details :: "dingz \<Rightarrow> json" where
  "device_details d = u_device_details d"

definition everything :: "dingz \<Rightarrow> (string \<times> json) list" where
  "everything d = u_catch_all d"

definition button_action :: "dingz \<Rightarrow> json" where
  "button_action d = u_button_action d"

definition temperature :: "dingz \<Rightarrow> py_error + json" where
  "temperature d = py_round (u_temperature d) 1"

definition day :: "dingz \<Rightarrow> bool" where
  "day d = (if u_hour_of_day d = JString ''day'' then True else False)"

definition night :: "dingz \<Rightarrow> bool" where
  "night d = (if u_hour_of_day d = JString ''night'' then True else False)"

definition intensity :: "dingz \<Rightarrow> py_error + json" where
  "intensity d = py_round (u_intensity d) 1"

text \<open>
  Modelled from the spec: the method \<^verbatim>\<open>close\<close> of a session object, which belongs to the
  library \<^verbatim>\<open>aiohttp\<close> and not to the repository. The first call closes the session and
  releases what it holds; on a session that is closed already a call returns and releases
  nothing, as the spec has it for a repeated release. The trace records every call, so
  that what the client does and what the session does can be told apart.
\<close>

definition session_close :: "session \<Rightarrow> world \<Rightarrow> world" where
  "session_close s w =
     (if SessionClosed s \<in> set w then w @ [CloseCalled s]
      else w @ [CloseCalled s, SessionClosed s])"

text \<open>
  \<^verbatim>\<open>close\<close>: a session object is always true in a condition, \<^verbatim>\<open>None\<close> is false.
\<close>

definition close :: "dingz \<times> world \<Rightarrow> outcome" where
  "close st =
     (let (d, w) = st
      in case u_session d of
           None \<Rightarrow> (Inr JNull, d, w)
         | Some s \<Rightarrow>
             if u_close_session d then (Inr JNull, d, session_close s w)
             else (Inr JNull, d, w))"

text \<open>
  \<^verbatim>\<open>__aenter__\<close> returns the client as it is, \<^verbatim>\<open>__aexit__\<close> closes it whatever the
  block raised.
\<close>

definition aenter :: "dingz \<times> world \<Rightarrow> dingz \<times> world" where
  "aenter st = st"

definition aexit :: "dingz \<times> world \<Rightarrow> outcome" where
  "aexit st = close st"

subsection \<open>Sequences of calls\<close>

text \<open>
  A caller invokes the methods one after the other and keeps going after an exception;
  \<open>run\<close> gives the result of each call and the client and trace at the end.
\<close>

datatype operation =
    GetDeviceInfo | GetInfo | GetTemperature | GetButtonAction | GetLight
  | Enabled | TurnOn | TurnOff | Close

fun exec :: "constants \<Rightarrow> device \<Rightarrow> operation \<Rightarrow> dingz \<times> world \<Rightarrow> outcome" where
  "exec c dev GetDeviceInfo st = get_device_info c dev st"
| "exec c dev GetInfo st = get_info c dev st"
| "exec c dev GetTemperature st = get_temperature c dev st"
| "exec c dev GetButtonAction st = get_button_action c dev st"
| "exec c dev GetLight st = get_light c dev st"
| "exec c dev Enabled st = enabled c dev st"
| "exec c dev TurnOn st = turn_on c dev st"
| "exec c dev TurnOff st = turn_off c dev st"
| "exec c dev Close st = close st"

fun run ::
  "constants \<Rightarrow> device \<Rightarrow> operation list \<Rightarrow> dingz \<times> world \<Rightarrow>
     (operation \<times> (py_error + json)) list \<times> dingz \<times> world" where
  "run c dev [] st = ([], st)"
| "run c dev (oper # rest) st =
     (case exec c dev oper st of
        (res, st1) \<Rightarrow> (case run c dev rest st1 of (rs, st2) \<Rightarrow> ((oper, res) # rs, st2)))"

subsection \<open>Notions used by the properties\<close>

text \<open>The six cached attributes that the properties read.\<close>

definition cached ::
  "dingz \<Rightarrow> json \<times> (string \<times> json) list \<times> json \<times> json \<times> json \<times> json" where
  "cached d =
     (u_device_details d, u_catch_all d, u_button_action d, u_temperature d, u_intensity d,
      u_hour_of_day d)"

text \<open>
  In the words of the spec: \<open>r\<close> is \<open>x\<close> rounded to one decimal place when \<open>r\<close> has
  one decimal place and no number with one decimal place is nearer to \<open>x\<close>.
\<close>

definition rounded_to_one_decimal :: "rat \<Rightarrow> rat \<Rightarrow> bool" where
  "rounded_to_one_decimal r x \<longleftrightarrow> of_int \<lfloor>r * 10\<rfloor> = r * 10 \<and> \<bar>r - x\<bar> \<le> 1 / 20"

text \<open>
  One assignment of the constants, for concrete runs: the prefix and the path of the
  example in the spec, and pairwise different names for the other endpoints.
\<close>

definition example_constants :: constants where
  "example_constants =
     \<lparr>API = ''/api/v1/'', BUTTON_ACTIONS = ''action'', DEVICE_INFO = ''device'',
      FRONT_LED_GET = ''led/get'', FRONT_LED_SET = ''led/set'',
      INPUT_CONFIGURATION = ''input_config'', LIGHT = ''light'',
      PIR_CONFIGURATION = ''pir_config'', PUCK = ''puck'', SETTINGS = ''settings'',
      TEMPERATURE = ''temp'', THERMOSTAT_CONFIGURATION = ''thermostat_config''\<rparr>"

text \<open>A device that answers every request with the body \<^verbatim>\<open>{"temperature": 21.37}\<close>.\<close>

definition temperature_device :: device where
  "temperature_device w = Body (JObject [(''temperature'', JFloat (to_binary64 (2137 / 100)))])"

text \<open>
  A device that answers every request with the body
  \<^verbatim>\<open>{"intensity": 123.456, "state": "night"}\<close>.
\<close>

definition light_device :: device where
  "light_device w =
     Body (JObject [(''intensity'', JFloat (to_binary64 (123456 / 1000))),
                    (''state'', JString ''night'')])"

text \<open>The requests in a trace, and the session that a call of the helper uses.\<close>

fun is_request :: "event \<Rightarrow> bool" where
  "is_request (Request s m u x) = True"
| "is_request _ = False"

definition requests :: "world \<Rightarrow> event list" where
  "requests w = filter is_request w"

definition client_session :: "dingz \<times> world \<Rightarrow> session" where
  "client_session st = fst (ensure_session st)"

text \<open>A device that answers every request with the body \<^verbatim>\<open>{"on": true}\<close>.\<close>

definition led_device :: device where
  "led_device w = Body (JObject [(''on'', JBool True)])"

text \<open>The request that \<^verbatim>\<open>get_info\<close> sends for one endpoint.\<close>

definition info_request :: "session \<Rightarrow> url \<Rightarrow> string \<Rightarrow> event" where
  "info_request s u endpoint = Request s GET (join u (URL endpoint)) JNull"

text \<open>
  A device that cannot be reached, and one that answers each request with the length of
  the trace so far, so that no two answers are the same.
\<close>

definition unreachable_device :: device where
  "unreachable_device w = Failure"

definition counting_device :: device where
  "counting_device w = Body (JInt (int (length w)))"

text \<open>A device that answers eight requests, like \<open>counting_device\<close>, and then no more.\<close>

definition fading_device :: device where
  "fading_device w =
     (if length (requests w) \<le> 8 then Body (JInt (int (length w))) else Failure)"

text \<open>A device like \<open>counting_device\<close> that lets the second request fail.\<close>

definition recovering_device :: device where
  "recovering_device w =
     (if length (requests w) = 2 then Failure else Body (JInt (int (length w))))"

text \<open>
  The sessions that a trace records as closed, and the calls of a session's \<^verbatim>\<open>close\<close>
  that it records.
\<close>

fun is_close :: "event \<Rightarrow> bool" where
  "is_close (SessionClosed s) = True"
| "is_close _ = False"

definition closes :: "world \<Rightarrow> event list" where
  "closes w = filter is_close w"

fun is_close_call :: "event \<Rightarrow> bool" where
  "is_close_call (CloseCalled s) = True"
| "is_close_call _ = False"

definition close_calls :: "world \<Rightarrow> event list" where
  "close_calls w = filter is_close_call w"

text \<open>
  A device that answers every request with the body \<^verbatim>\<open>{"intensity": 123.456}\<close>, without
  the field \<^verbatim>\<open>state\<close>.
\<close>

definition stateless_light_device :: device where
  "stateless_light_device w =
     Body (JObject [(''intensity'', JFloat (to_binary64 (123456 / 1000)))])"

text \<open>A device that answers one request, like \<open>counting_device\<close>, and then no more.\<close>

definition single_answer_device :: device where
  "single_answer_device w =
     (if length (requests w) \<le> 1 then Body (JInt (int (length w))) else Failure)"

text \<open>
  The calls of the helper that each method makes, as method, endpoint and body, and the
  request that such a call sends over a session from a base URL.
\<close>

fun calls_of :: "constants \<Rightarrow> operation \<Rightarrow> (http_method \<times> string \<times> json) list" where
  "calls_of c GetDeviceInfo = [(GET, DEVICE_INFO c, JNull)]"
| "calls_of c GetInfo = map (\<lambda>endpoint. (GET, endpoint, JNull)) (info_endpoints c)"
| "calls_of c GetTemperature = [(GET, TEMPERATURE c, JNull)]"
| "calls_of c GetButtonAction = [(GET, BUTTON_ACTIONS c, JNull)]"
| "calls_of c GetLight = [(GET, LIGHT c, JNull)]"
| "calls_of c Enabled = [(GET, FRONT_LED_GET c, JNull)]"
| "calls_of c TurnOn = [(POST, FRONT_LED_SET c, JObject [(''action'', JString ''on'')])]"
| "calls_of c TurnOff = [(POST, FRONT_LED_SET c, JObject [(''action'', JString ''off'')])]"
| "calls_of c Close = []"

definition request_to :: "session \<Rightarrow> url \<Rightarrow> http_method \<times> string \<times> json \<Rightarrow> event" where
  "request_to s base call =
     (case call of (m, endpoint, x) \<Rightarrow> Request s m (join base (URL endpoint)) x)"

text \<open>
  The trace at the moment the device answers request number \<open>k\<close> of a method, when the
  requests before it were answered.
\<close>

definition call_trace :: "constants \<Rightarrow> operation \<Rightarrow> dingz \<times> world \<Rightarrow> nat \<Rightarrow> world" where
  "call_trace c oper st k =
     snd (snd (ensure_session st))
     @ map (request_to (client_session st) (uri (fst st))) (take k (calls_of c oper))"

text \<open>
  A device that answers one request with the body \<^verbatim>\<open>{"temperature": 21.37}\<close> and then no
  more.
\<close>

definition cooling_device :: device where
  "cooling_device w =
     (if length (requests w) \<le> 1
      then Body (JObject [(''temperature'', JFloat (to_binary64 (2137 / 100)))])
      else Failure)"

section \<open>Properties\<close>

subsection \<open>The call helper and rounding\<close>

lemma make_call_sound:
  assumes "make_call dev (d, w) u m x = (r, d', w')"
  shows "cached d' = cached d" and "uri d' = uri d"
    and "r = (case dev w' of Failure \<Rightarrow> Inl TransportFailure | Body b \<Rightarrow> Inr b)"
  using assms
  by (auto simp: make_call_def ensure_session_def cached_def Let_def
      split: option.splits reply.splits)

lemma round_half_even_near: "\<bar>of_int (round_half_even y) - y\<bar> \<le> 1 / 2"
proof -
  have lo: "of_int \<lfloor>y\<rfloor> \<le> y" and hi: "y < of_int \<lfloor>y\<rfloor> + 1"
    by linarith+
  show ?thesis
    using lo hi unfolding round_half_even_def Let_def
    by (simp add: abs_le_iff)
qed

lemma rounded_to_one_decimal_rhe:
  "rounded_to_one_decimal (of_int (round_half_even (x * 10)) / 10) x"
  using round_half_even_near [of "x * 10"]
  by (simp add: rounded_to_one_decimal_def abs_le_iff field_simps)

lemma float_round_one_decimal:
  "py_round (JFloat (Finite x)) 1 =
     (case to_binary64 (of_int (round_half_even (x * 10)) / 10) of
        Finite y \<Rightarrow> Inr (JFloat (Finite y)) | _ \<Rightarrow> Inl OverflowError)"
  by (simp add: float_round_def split: pyfloat.splits)

lemma ilog2_le:
  assumes "a < 2 ^ k"
  shows "ilog2 a \<le> int k"
proof (cases "1 \<le> a")
  case True
  have "of_int \<lfloor>a\<rfloor> \<le> a" by simp
  with assms have "(of_int \<lfloor>a\<rfloor> :: rat) < 2 ^ k" by linarith
  then have "\<lfloor>a\<rfloor> < 2 ^ k"
    by (metis of_int_less_iff of_int_numeral of_int_power)
  then have "bitlen \<lfloor>a\<rfloor> \<le> int k"
    by (simp add: bitlen_le_iff_power)
  with True show ?thesis
    by (simp add: ilog2_def)
next
  case False
  then show ?thesis
    using bitlen_nonneg [of "\<lceil>1 / a\<rceil> - 1"] by (simp add: ilog2_def)
qed

lemma pow2_pos: "0 < pow2 q"
  by (simp add: pow2_def)

lemma pow2_le: "q \<le> int k \<Longrightarrow> pow2 q \<le> 2 ^ k"
proof (cases "0 \<le> q")
  case True
  assume "q \<le> int k"
  with True have "nat q \<le> k" by simp
  then have "(2::rat) ^ nat q \<le> 2 ^ k"
    by (intro power_increasing) simp_all
  with True show ?thesis by (simp add: pow2_def)
next
  case False
  have "(1::rat) / 2 ^ nat (- q) \<le> 1"
    by (simp add: divide_le_eq)
  also have "\<dots> \<le> 2 ^ k" by simp
  finally show ?thesis using False by (simp add: pow2_def)
qed

lemma to_binary64_finite:
  assumes "\<bar>r\<bar> \<le> 2 ^ 1000"
  shows "\<exists>y. to_binary64 r = Finite y"
proof (cases "r = 0")
  case True
  then show ?thesis by (simp add: to_binary64_def)
next
  case False
  define a where "a = \<bar>r\<bar>"
  define q where "q = max (ilog2 a) (- 1022) - 52"
  define y where "y = of_int (round_half_even (a / pow2 q)) * pow2 q"
  have "a < 2 ^ 1001"
    using assms unfolding a_def by (rule order_le_less_trans) (simp add: power_strict_increasing)
  from ilog2_le [OF this] have "q \<le> int 949"
    unfolding q_def by simp
  from pow2_le [OF this] have q: "pow2 q \<le> 2 ^ 949" .
  have "of_int (round_half_even (a / pow2 q)) \<le> a / pow2 q + 1 / 2"
    using round_half_even_near [of "a / pow2 q"] by linarith
  then have "y \<le> (a / pow2 q + 1 / 2) * pow2 q"
    unfolding y_def using pow2_pos [of q] by (simp add: mult_le_cancel_right)
  also have "\<dots> = a + pow2 q / 2"
    using pow2_pos [of q] by (simp add: field_simps)
  also have "\<dots> \<le> 2 ^ 1000 + 2 ^ 949"
  proof (rule add_mono)
    show "a \<le> 2 ^ 1000" using assms by (simp only: a_def)
    have "pow2 q / 2 \<le> pow2 q" using pow2_pos [of q] by simp
    then show "pow2 q / 2 \<le> 2 ^ 949" using q by (rule order_trans)
  qed
  also have "\<dots> < 2 ^ 1001"
  proof -
    have "(2::rat) ^ 949 < 2 ^ 1000" by (rule power_strict_increasing) simp_all
    then have "(2::rat) ^ 1000 + 2 ^ 949 < 2 ^ 1000 + 2 ^ 1000" by (rule add_strict_left_mono)
    also have "\<dots> = 2 ^ Suc 1000" by (simp only: power_Suc mult_2)
    finally show ?thesis by (simp only: eval_nat_numeral(3) [symmetric] Suc_numeral) simp
  qed
  finally have "y < 2 ^ 1001" .
  from ilog2_le [OF this] have "\<not> 1024 \<le> ilog2 y" by simp
  with False show ?thesis
    by (simp add: to_binary64_def Let_def a_def [symmetric] q_def [symmetric] y_def [symmetric])
qed


lemma py_round_one_decimal:
  assumes "\<bar>x\<bar> \<le> 2 ^ 999"
  shows "\<exists>r y. rounded_to_one_decimal r x \<and> to_binary64 r = Finite y
           \<and> py_round (JFloat (Finite x)) 1 = Inr (JFloat (Finite y))"
proof -
  define r where "r = of_int (round_half_even (x * 10)) / (10 :: rat)"
  have near: "rounded_to_one_decimal r x"
    unfolding r_def by (rule rounded_to_one_decimal_rhe)
  then have "\<bar>r - x\<bar> \<le> 1 / 20"
    by (simp only: rounded_to_one_decimal_def)
  then have "\<bar>r\<bar> \<le> \<bar>x\<bar> + 1"
    by linarith
  also have "\<dots> \<le> 2 ^ 999 + 2 ^ 999"
    using assms by (intro add_mono) simp_all
  also have "\<dots> = 2 ^ Suc 999"
    by (simp only: power_Suc mult_2)
  finally have "\<bar>r\<bar> \<le> 2 ^ 1000"
    by (simp only: eval_nat_numeral(3) [symmetric] Suc_numeral) simp
  from to_binary64_finite [OF this] obtain y where y: "to_binary64 r = Finite y" ..
  with float_round_one_decimal [of x] have "py_round (JFloat (Finite x)) 1 = Inr (JFloat (Finite y))"
    by (simp add: r_def)
  with near y show ?thesis by blast
qed

lemma round_21_37:
  "py_round (JFloat (to_binary64 (2137 / 100))) 1 = Inr (JFloat (to_binary64 (214 / 10)))"
  by code_simp

subsection \<open>Temperature\<close>

text \<open>
  C1. When \<^verbatim>\<open>get_temperature\<close> succeeds on a response whose field \<^verbatim>\<open>temperature\<close> is
  \<open>t\<close>, the attribute holds \<open>t\<close> itself, unrounded, and the property \<^verbatim>\<open>temperature\<close>
  returns \<^verbatim>\<open>round(t, 1)\<close>: for a finite float the float nearest to \<open>t\<close> rounded to one
  decimal place (it exists when the magnitude of \<open>t\<close> is at most \<open>2 ^ 999\<close>), and
  \<^verbatim>\<open>21.4\<close> for the body \<^verbatim>\<open>{"temperature": 21.37}\<close>.
\<close>

theorem get_temperature_rounds:
  assumes "get_temperature c dev st = (Inr JNull, d', w')"
    and "dev w' = Body b"
    and "getitem b ''temperature'' = Inr t"
  shows "u_temperature d' = t
       \<and> temperature d' = py_round t 1
       \<and> (\<forall>x. t = JFloat (Finite x) \<longrightarrow>
            (\<exists>r. rounded_to_one_decimal r x
               \<and> temperature d' =
                   (case to_binary64 r of
                      Finite y \<Rightarrow> Inr (JFloat (Finite y))
                    | _ \<Rightarrow> Inl OverflowError)))
       \<and> (\<forall>x. t = JFloat (Finite x) \<and> \<bar>x\<bar> \<le> 2 ^ 999 \<longrightarrow>
            (\<exists>r y. rounded_to_one_decimal r x \<and> to_binary64 r = Finite y
               \<and> temperature d' = Inr (JFloat (Finite y))))
       \<and> (t = JFloat (to_binary64 (2137 / 100)) \<longrightarrow>
            temperature d' = Inr (JFloat (to_binary64 (214 / 10))))"
proof -
  obtain d w where st: "st = (d, w)"
    by (cases st)
  obtain r d1 w1 where mc:
    "make_call dev (d, w) (join (uri d) (URL (TEMPERATURE c))) GET JNull = (r, d1, w1)"
    by (metis prod_cases3)
  from assms(1) st mc have w': "w' = w1"
    by (auto simp: get_temperature_def Let_def split: sum.splits)
  from make_call_sound(3) [OF mc] assms(2) w' have "r = Inr b"
    by simp
  with assms(1,3) st mc have stored: "u_temperature d' = t"
    by (auto simp: get_temperature_def Let_def)
  then have acc: "temperature d' = py_round t 1"
    by (simp add: temperature_def)
  have "\<exists>r. rounded_to_one_decimal r x
          \<and> temperature d' =
              (case to_binary64 r of Finite y \<Rightarrow> Inr (JFloat (Finite y)) | _ \<Rightarrow> Inl OverflowError)"
    if "t = JFloat (Finite x)" for x
    using rounded_to_one_decimal_rhe [of x] float_round_one_decimal [of x] acc that
    by auto
  moreover have "\<exists>r y. rounded_to_one_decimal r x \<and> to_binary64 r = Finite y
          \<and> temperature d' = Inr (JFloat (Finite y))"
    if "t = JFloat (Finite x) \<and> \<bar>x\<bar> \<le> 2 ^ 999" for x
    using py_round_one_decimal [of x] acc that by auto
  moreover have "temperature d' = Inr (JFloat (to_binary64 (214 / 10)))"
    if "t = JFloat (to_binary64 (2137 / 100))"
    unfolding acc that by (rule round_21_37)
  ultimately show ?thesis
    using stored acc by blast
qed

lemma get_temperature_example:
  "fst (get_temperature example_constants temperature_device
         (init example_constants ''1.2.3.4'' None, [])) = Inr JNull"
  by (simp add: get_temperature_def make_call_def ensure_session_def init_def
      temperature_device_def Let_def)

theorem get_temperature_rounds_witness:
  "\<exists>d' w'. get_temperature example_constants temperature_device
              (init example_constants ''1.2.3.4'' None, []) = (Inr JNull, d', w')
     \<and> temperature_device w' = Body (JObject [(''temperature'', JFloat (to_binary64 (2137 / 100)))])
     \<and> u_temperature d' = JFloat (to_binary64 (2137 / 100))
     \<and> temperature d' = Inr (JFloat (to_binary64 (214 / 10)))"
proof -
  let ?out = "get_temperature example_constants temperature_device
                (init example_constants ''1.2.3.4'' None, [])"
  have run: "?out = (Inr JNull, fst (snd ?out), snd (snd ?out))"
    using get_temperature_example by (metis prod.collapse)
  have dev: "temperature_device (snd (snd ?out))
               = Body (JObject [(''temperature'', JFloat (to_binary64 (2137 / 100)))])"
    by (simp add: temperature_device_def)
  have item: "getitem (JObject [(''temperature'', JFloat (to_binary64 (2137 / 100)))]) ''temperature''
                = Inr (JFloat (to_binary64 (2137 / 100)))"
    by simp
  from get_temperature_rounds [OF run dev item] run dev show ?thesis
    by blast
qed

subsection \<open>Light\<close>

lemma round_123_456:
  "py_round (JFloat (to_binary64 (123456 / 1000))) 1 = Inr (JFloat (to_binary64 (1235 / 10)))"
  by code_simp

text \<open>
  C2. When \<^verbatim>\<open>get_light\<close> succeeds on a response with the fields \<^verbatim>\<open>intensity\<close> and
  \<^verbatim>\<open>state\<close>, the two attributes hold them; \<^verbatim>\<open>intensity\<close> returns the first rounded to
  one decimal place (as for the temperature), and \<^verbatim>\<open>night\<close> and \<^verbatim>\<open>day\<close> compare the second with the strings
  \<^verbatim>\<open>"night"\<close> and \<^verbatim>\<open>"day"\<close>. For \<^verbatim>\<open>{"intensity": 123.456, "state": "night"}\<close> these
  are \<^verbatim>\<open>123.5\<close>, true and false.
\<close>

theorem get_light_caches:
  assumes "get_light c dev st = (Inr JNull, d', w')"
    and "dev (butlast w') = Body b"
    and "getitem b ''intensity'' = Inr i"
    and "getitem b ''state'' = Inr h"
  shows "u_intensity d' = i \<and> u_hour_of_day d' = h
       \<and> intensity d' = py_round i 1
       \<and> (\<forall>x. i = JFloat (Finite x) \<longrightarrow>
            (\<exists>r. rounded_to_one_decimal r x
               \<and> intensity d' =
                   (case to_binary64 r of
                      Finite y \<Rightarrow> Inr (JFloat (Finite y))
                    | _ \<Rightarrow> Inl OverflowError)))
       \<and> (\<forall>x. i = JFloat (Finite x) \<and> \<bar>x\<bar> \<le> 2 ^ 999 \<longrightarrow>
            (\<exists>r y. rounded_to_one_decimal r x \<and> to_binary64 r = Finite y
               \<and> intensity d' = Inr (JFloat (Finite y))))
       \<and> night d' = (h = JString ''night'')
       \<and> day d' = (h = JString ''day'')
       \<and> (i = JFloat (to_binary64 (123456 / 1000)) \<and> h = JString ''night'' \<longrightarrow>
            intensity d' = Inr (JFloat (to_binary64 (1235 / 10))) \<and> night d' \<and> \<not> day d')"
proof -
  obtain d w where st: "st = (d, w)"
    by (cases st)
  obtain r d1 w1 where mc:
    "make_call dev (d, w) (join (uri d) (URL (LIGHT c))) GET JNull = (r, d1, w1)"
    by (metis prod_cases3)
  from assms(1) st mc have "butlast w' = w1"
    by (auto simp: get_light_def Let_def split: sum.splits)
  with make_call_sound(3) [OF mc] assms(2) have "r = Inr b"
    by simp
  with assms(1,3,4) st mc have stored: "u_intensity d' = i" "u_hour_of_day d' = h"
    by (auto simp: get_light_def Let_def)
  then have acc: "intensity d' = py_round i 1"
    and nd: "night d' = (h = JString ''night'')" "day d' = (h = JString ''day'')"
    by (simp_all add: intensity_def night_def day_def)
  have "\<exists>r. rounded_to_one_decimal r x
          \<and> intensity d' =
              (case to_binary64 r of Finite y \<Rightarrow> Inr (JFloat (Finite y)) | _ \<Rightarrow> Inl OverflowError)"
    if "i = JFloat (Finite x)" for x
    using rounded_to_one_decimal_rhe [of x] float_round_one_decimal [of x] acc that
    by auto
  moreover have "\<exists>r y. rounded_to_one_decimal r x \<and> to_binary64 r = Finite y
          \<and> intensity d' = Inr (JFloat (Finite y))"
    if "i = JFloat (Finite x) \<and> \<bar>x\<bar> \<le> 2 ^ 999" for x
    using py_round_one_decimal [of x] acc that by auto
  moreover have "intensity d' = Inr (JFloat (to_binary64 (1235 / 10)))"
    if "i = JFloat (to_binary64 (123456 / 1000))"
    unfolding acc that by (rule round_123_456)
  moreover have "night d' \<and> \<not> day d'" if "h = JString ''night''"
    using nd that by simp
  ultimately show ?thesis
    using stored acc nd by blast
qed

lemma get_light_example:
  "fst (get_light example_constants light_device
         (init example_constants ''1.2.3.4'' None, [])) = Inr JNull"
  by (simp add: get_light_def make_call_def ensure_session_def init_def light_device_def Let_def)

theorem get_light_caches_witness:
  "\<exists>d' w'. get_light example_constants light_device
              (init example_constants ''1.2.3.4'' None, []) = (Inr JNull, d', w')
     \<and> intensity d' = Inr (JFloat (to_binary64 (1235 / 10))) \<and> night d' \<and> \<not> day d'"
proof -
  let ?out = "get_light example_constants light_device
                (init example_constants ''1.2.3.4'' None, [])"
  let ?b = "JObject [(''intensity'', JFloat (to_binary64 (123456 / 1000))),
                     (''state'', JString ''night'')]"
  have run: "?out = (Inr JNull, fst (snd ?out), snd (snd ?out))"
    using get_light_example by (metis prod.collapse)
  have dev: "light_device (butlast (snd (snd ?out))) = Body ?b"
    by (simp add: light_device_def)
  have i: "getitem ?b ''intensity'' = Inr (JFloat (to_binary64 (123456 / 1000)))"
    and h: "getitem ?b ''state'' = Inr (JString ''night'')"
    by simp_all
  from get_light_caches [OF run dev i h] run show ?thesis
    by blast
qed

subsection \<open>The front LED\<close>

lemma requests_append [simp]: "requests (w @ v) = requests w @ requests v"
  by (simp add: requests_def)

lemma requests_ensure_session:
  "requests (snd (snd (ensure_session st))) = requests (snd st)"
  by (cases st) (simp add: ensure_session_def requests_def split: option.splits)

lemma make_call_requests:
  "requests (snd (snd (make_call dev st u m x)))
     = requests (snd st) @ [Request (client_session st) m u x]"
  using requests_ensure_session [of st]
  by (cases "ensure_session st")
     (simp add: make_call_def client_session_def requests_def Let_def split: reply.splits)

lemma make_call_cached: "cached (fst (snd (make_call dev st u m x))) = cached (fst st)"
  by (cases st, cases "make_call dev st u m x") (simp add: make_call_sound(1))

text \<open>
  C8. Every call of \<^verbatim>\<open>turn_on\<close> adds exactly one request to the trace, a \<^verbatim>\<open>POST\<close> to
  the endpoint that sets the LED with the body \<^verbatim>\<open>{"action": "on"}\<close>; every call of
  \<^verbatim>\<open>turn_off\<close> exactly one such request with the body \<^verbatim>\<open>{"action": "off"}\<close>. This holds
  whatever the device answers, so a failed request is not repeated.
\<close>

theorem front_led_one_post:
  "requests (snd (snd (turn_on c dev st)))
     = requests (snd st)
       @ [Request (client_session st) POST (join (uri (fst st)) (URL (FRONT_LED_SET c)))
            (JObject [(''action'', JString ''on'')])]
   \<and> requests (snd (snd (turn_off c dev st)))
     = requests (snd st)
       @ [Request (client_session st) POST (join (uri (fst st)) (URL (FRONT_LED_SET c)))
            (JObject [(''action'', JString ''off'')])]"
proof -
  have "snd (snd (turn_on c dev st))
          = snd (snd (make_call dev st (join (uri (fst st)) (URL (FRONT_LED_SET c))) POST
                        (JObject [(''action'', JString ''on'')])))"
    by (simp add: turn_on_def Let_def split: prod.splits sum.splits)
  moreover have "snd (snd (turn_off c dev st))
          = snd (snd (make_call dev st (join (uri (fst st)) (URL (FRONT_LED_SET c))) POST
                        (JObject [(''action'', JString ''off'')])))"
    by (simp add: turn_off_def Let_def split: prod.splits sum.splits)
  ultimately show ?thesis
    by (simp add: make_call_requests)
qed

lemma make_call_world:
  "dev (snd (snd (make_call dev st u m x))) = Failure \<longleftrightarrow>
     fst (make_call dev st u m x) = Inl TransportFailure"
  "dev (snd (snd (make_call dev st u m x))) = Body b \<longleftrightarrow>
     fst (make_call dev st u m x) = Inr b"
  by (cases "ensure_session st"; simp add: make_call_def Let_def split: reply.splits)+

text \<open>
  C9. \<^verbatim>\<open>enabled\<close>, \<^verbatim>\<open>turn_on\<close> and \<^verbatim>\<open>turn_off\<close> leave the six cached attributes as they
  were, whether the call succeeds or not; \<^verbatim>\<open>enabled\<close> returns the truth value of the
  field \<^verbatim>\<open>on\<close> of the response.
\<close>

theorem front_led_frame:
  "cached (fst (snd (enabled c dev st))) = cached (fst st)
   \<and> cached (fst (snd (turn_on c dev st))) = cached (fst st)
   \<and> cached (fst (snd (turn_off c dev st))) = cached (fst st)
   \<and> (\<forall>b v. dev (snd (snd (enabled c dev st))) = Body b \<and> getitem b ''on'' = Inr v \<longrightarrow>
         fst (enabled c dev st) = Inr (JBool (py_bool v)))"
proof -
  let ?get = "make_call dev st (join (uri (fst st)) (URL (FRONT_LED_GET c))) GET JNull"
  have en: "fst (snd (enabled c dev st)) = fst (snd ?get)"
    "snd (snd (enabled c dev st)) = snd (snd ?get)"
    by (simp_all add: enabled_def Let_def split: prod.splits sum.splits)
  have "fst (snd (turn_on c dev st))
          = fst (snd (make_call dev st (join (uri (fst st)) (URL (FRONT_LED_SET c))) POST
                        (JObject [(''action'', JString ''on'')])))"
    by (simp add: turn_on_def Let_def split: prod.splits sum.splits)
  moreover have "fst (snd (turn_off c dev st))
          = fst (snd (make_call dev st (join (uri (fst st)) (URL (FRONT_LED_SET c))) POST
                        (JObject [(''action'', JString ''off'')])))"
    by (simp add: turn_off_def Let_def split: prod.splits sum.splits)
  moreover have "fst (enabled c dev st) = Inr (JBool (py_bool v))"
    if "dev (snd (snd (enabled c dev st))) = Body b" and "getitem b ''on'' = Inr v" for b v
  proof -
    from that(1) have "fst ?get = Inr b"
      by (simp add: en make_call_world)
    with that(2) show ?thesis
      by (cases ?get) (simp add: enabled_def Let_def)
  qed
  ultimately show ?thesis
    by (simp add: en make_call_cached)
qed

theorem front_led_frame_witness:
  "led_device (snd (snd (enabled example_constants led_device
                           (init example_constants ''1.2.3.4'' None, []))))
     = Body (JObject [(''on'', JBool True)])
   \<and> getitem (JObject [(''on'', JBool True)]) ''on'' = Inr (JBool True)
   \<and> fst (enabled example_constants led_device (init example_constants ''1.2.3.4'' None, []))
       = Inr (JBool True)
   \<and> cached (fst (snd (enabled example_constants led_device
                          (init example_constants ''1.2.3.4'' None, []))))
       = cached (init example_constants ''1.2.3.4'' None)"
  using front_led_frame [of example_constants led_device
      "(init example_constants ''1.2.3.4'' None, [])"]
  by (simp add: led_device_def)

subsection \<open>The aggregate refresh\<close>

lemma make_call_session:
  "u_session d = Some s \<Longrightarrow>
     make_call dev (d, w) u m x =
       (case dev (w @ [Request s m u x]) of
          Failure \<Rightarrow> (Inl TransportFailure, d, w @ [Request s m u x])
        | Body b \<Rightarrow> (Inr b, d, w @ [Request s m u x]))"
  by (simp add: make_call_def ensure_session_def Let_def)

lemma ensure_session_sound:
  assumes "ensure_session (d, w) = (s, d0, w0)"
  shows "u_session d0 = Some s" and "cached d0 = cached d" and "uri d0 = uri d"
    and "requests w0 = requests w" and "s = client_session (d, w)"
    and "ensure_session (d0, w0) = (s, d0, w0)"
  using assms
  by (auto simp: ensure_session_def cached_def requests_def client_session_def
      split: option.splits)

lemma make_call_ensure:
  "make_call dev st u m x = make_call dev (snd (ensure_session st)) u m x"
proof -
  obtain d w where st: "st = (d, w)" by (cases st)
  obtain s d0 w0 where e: "ensure_session (d, w) = (s, d0, w0)" by (metis prod_cases3)
  show ?thesis
    using e ensure_session_sound(6) [OF e] by (simp add: st make_call_def)
qed

lemma get_info_loop_ensure:
  assumes "es \<noteq> []"
  shows "get_info_loop dev es st = get_info_loop dev es (snd (ensure_session st))"
proof -
  obtain e rest where es: "es = e # rest" using assms by (cases es) auto
  obtain d w where st: "st = (d, w)" by (cases st)
  obtain s d0 w0 where en: "ensure_session (d, w) = (s, d0, w0)" by (metis prod_cases3)
  have "make_call dev (d, w) (join (uri d) (URL e)) GET JNull
          = make_call dev (d0, w0) (join (uri d0) (URL e)) GET JNull"
    using make_call_ensure [of dev "(d, w)"] en ensure_session_sound(3) [OF en] by simp
  then show ?thesis
    by (simp add: es st en)
qed

lemma get_info_loop_sound:
  assumes "u_session d = Some s" and "get_info_loop dev es (d, w) = (r, d', w')"
  shows "\<exists>n m. n \<le> length es
     \<and> w' = w @ map (info_request s (uri d)) (take n es)
     \<and> (r = Inr JNull \<and> n = length es \<and> m = n
          \<or> r = Inl TransportFailure \<and> n = Suc m \<and> dev w' = Failure)
     \<and> (\<forall>i<m. \<exists>v. dev (w @ map (info_request s (uri d)) (take (Suc i) es)) = Body v
            \<and> (es ! i \<notin> set (drop (Suc i) (take m es)) \<longrightarrow>
                 map_of (u_catch_all d') (es ! i) = Some v))
     \<and> (\<forall>k. k \<notin> set (take m es) \<longrightarrow> map_of (u_catch_all d') k = map_of (u_catch_all d) k)
     \<and> (distinct es \<longrightarrow>
          map fst (u_catch_all d')
            = map fst (u_catch_all d) @ filter (\<lambda>k. k \<notin> fst ` set (u_catch_all d)) (take m es))
     \<and> u_session d' = Some s \<and> u_close_session d' = u_close_session d \<and> uri d' = uri d
     \<and> u_device_details d' = u_device_details d \<and> u_button_action d' = u_button_action d
     \<and> u_temperature d' = u_temperature d \<and> u_intensity d' = u_intensity d
     \<and> u_hour_of_day d' = u_hour_of_day d"
  using assms
proof (induction es arbitrary: d w)
  case Nil
  then show ?case by auto
next
  case (Cons e rest)
  let ?q = "info_request s (uri d) e"
  show ?case
  proof (cases "dev (w @ [?q])")
    case Failure
    with Cons.prems have "r = Inl TransportFailure" "d' = d" "w' = w @ [?q]"
      by (auto simp: make_call_session info_request_def Let_def)
    with Failure Cons.prems(1) show ?thesis
      by (intro exI [of _ 1] exI [of _ 0]) simp
  next
    case (Body b)
    let ?d1 = "d\<lparr>u_catch_all := AList.update e b (u_catch_all d)\<rparr>"
    from Body Cons.prems have rec: "get_info_loop dev rest (?d1, w @ [?q]) = (r, d', w')"
      by (auto simp: make_call_session info_request_def Let_def)
    have s1: "u_session ?d1 = Some s" using Cons.prems(1) by simp
    from Cons.IH [OF s1 rec] obtain n m where ih:
      "n \<le> length rest"
      "w' = (w @ [?q]) @ map (info_request s (uri ?d1)) (take n rest)"
      "r = Inr JNull \<and> n = length rest \<and> m = n
          \<or> r = Inl TransportFailure \<and> n = Suc m \<and> dev w' = Failure"
      "\<forall>i<m. \<exists>v. dev ((w @ [?q]) @ map (info_request s (uri ?d1)) (take (Suc i) rest)) = Body v
            \<and> (rest ! i \<notin> set (drop (Suc i) (take m rest)) \<longrightarrow>
                 map_of (u_catch_all d') (rest ! i) = Some v)"
      "\<forall>k. k \<notin> set (take m rest) \<longrightarrow> map_of (u_catch_all d') k = map_of (u_catch_all ?d1) k"
      "distinct rest \<longrightarrow>
          map fst (u_catch_all d')
            = map fst (u_catch_all ?d1) @ filter (\<lambda>k. k \<notin> fst ` set (u_catch_all ?d1)) (take m rest)"
      "u_session d' = Some s \<and> u_close_session d' = u_close_session ?d1 \<and> uri d' = uri ?d1
     \<and> u_device_details d' = u_device_details ?d1 \<and> u_button_action d' = u_button_action ?d1
     \<and> u_temperature d' = u_temperature ?d1 \<and> u_intensity d' = u_intensity ?d1
     \<and> u_hour_of_day d' = u_hour_of_day ?d1"
      by blast
    have a: "Suc n \<le> length (e # rest)" using ih(1) by simp
    have b: "w' = w @ map (info_request s (uri d)) (take (Suc n) (e # rest))"
      using ih(2) by simp
    have c: "r = Inr JNull \<and> Suc n = length (e # rest) \<and> Suc m = Suc n
          \<or> r = Inl TransportFailure \<and> Suc n = Suc (Suc m) \<and> dev w' = Failure"
      using ih(3) by auto
    have d: "\<exists>v. dev (w @ map (info_request s (uri d)) (take (Suc i) (e # rest))) = Body v
            \<and> ((e # rest) ! i \<notin> set (drop (Suc i) (take (Suc m) (e # rest))) \<longrightarrow>
                 map_of (u_catch_all d') ((e # rest) ! i) = Some v)" if "i < Suc m" for i
    proof (cases i)
      case 0
      have "map_of (u_catch_all d') e = Some b" if "e \<notin> set (take m rest)"
        using ih(5) that by (simp add: update_conv')
      with 0 Body show ?thesis by simp
    next
      case (Suc j)
      with that ih(4) show ?thesis by simp
    qed
    have e: "map_of (u_catch_all d') k = map_of (u_catch_all d) k"
      if "k \<notin> set (take (Suc m) (e # rest))" for k
      using ih(5) that by (simp add: update_conv')
    have f: "map fst (u_catch_all d')
            = map fst (u_catch_all d)
              @ filter (\<lambda>k. k \<notin> fst ` set (u_catch_all d)) (take (Suc m) (e # rest))"
      if dist: "distinct (e # rest)"
    proof -
      have notin: "e \<notin> set (take m rest)"
        using dist by (auto dest: in_set_takeD)
      then have "filter (\<lambda>k. k \<notin> fst ` set (AList.update e b (u_catch_all d))) (take m rest)
            = filter (\<lambda>k. k \<notin> fst ` set (u_catch_all d)) (take m rest)"
        by (intro filter_cong) (auto simp: dom_update)
      with ih(6) dist show ?thesis
        by (auto simp: update_keys)
    qed
    from a b c d e f ih(7) show ?thesis
      by (intro exI [of _ "Suc n"] exI [of _ "Suc m"]) (simp del: take_Suc_Cons nth_Cons_Suc)
  qed
qed

lemma distinct_nth_notin_drop:
  "distinct xs \<Longrightarrow> i < length xs \<Longrightarrow> xs ! i \<notin> set (drop (Suc i) xs)"
  by (metis Cons_nth_drop_Suc distinct.simps(2) distinct_drop)

lemma length_info_endpoints [simp]: "length (info_endpoints c) = 7"
  by (simp add: info_endpoints_def)

lemma get_info_sound:
  assumes "get_info c dev st = (r, d', w')"
  shows "\<exists>n m. n \<le> 7
     \<and> w' = snd (snd (ensure_session st))
              @ map (info_request (client_session st) (uri (fst st))) (take n (info_endpoints c))
     \<and> requests w'
         = requests (snd st)
           @ map (info_request (client_session st) (uri (fst st))) (take n (info_endpoints c))
     \<and> (r = Inr JNull \<and> n = 7 \<and> m = 7
          \<or> r = Inl TransportFailure \<and> n = Suc m \<and> dev w' = Failure)
     \<and> (\<forall>i<m. \<exists>v. dev (take (length w' - n + Suc i) w') = Body v
            \<and> (distinct (info_endpoints c) \<longrightarrow>
                 map_of (u_catch_all d') (info_endpoints c ! i) = Some v))
     \<and> (\<forall>k. k \<notin> set (take m (info_endpoints c)) \<longrightarrow>
           map_of (u_catch_all d') k = map_of (u_catch_all (fst st)) k)
     \<and> (distinct (info_endpoints c) \<longrightarrow>
          map fst (u_catch_all d')
            = map fst (u_catch_all (fst st))
              @ filter (\<lambda>k. k \<notin> fst ` set (u_catch_all (fst st))) (take m (info_endpoints c)))
     \<and> u_device_details d' = u_device_details (fst st)
     \<and> u_button_action d' = u_button_action (fst st)
     \<and> u_temperature d' = u_temperature (fst st)
     \<and> u_intensity d' = u_intensity (fst st)
     \<and> u_hour_of_day d' = u_hour_of_day (fst st)"
proof -
  let ?es = "info_endpoints c"
  obtain d w where st: "st = (d, w)" by (cases st)
  obtain s d0 w0 where en: "ensure_session (d, w) = (s, d0, w0)" by (metis prod_cases3)
  note e = ensure_session_sound [OF en]
  have "get_info_loop dev ?es (d0, w0) = (r, d', w')"
    using assms get_info_loop_ensure [of ?es dev st] st en
    by (simp add: get_info_def info_endpoints_def)
  from get_info_loop_sound [OF e(1) this] obtain n m where l:
    "n \<le> length ?es"
    "w' = w0 @ map (info_request s (uri d0)) (take n ?es)"
    "r = Inr JNull \<and> n = length ?es \<and> m = n
       \<or> r = Inl TransportFailure \<and> n = Suc m \<and> dev w' = Failure"
    "\<forall>i<m. \<exists>v. dev (w0 @ map (info_request s (uri d0)) (take (Suc i) ?es)) = Body v
            \<and> (?es ! i \<notin> set (drop (Suc i) (take m ?es)) \<longrightarrow>
                 map_of (u_catch_all d') (?es ! i) = Some v)"
    "\<forall>k. k \<notin> set (take m ?es) \<longrightarrow> map_of (u_catch_all d') k = map_of (u_catch_all d0) k"
    "distinct ?es \<longrightarrow>
          map fst (u_catch_all d')
            = map fst (u_catch_all d0) @ filter (\<lambda>k. k \<notin> fst ` set (u_catch_all d0)) (take m ?es)"
    "u_device_details d' = u_device_details d0 \<and> u_button_action d' = u_button_action d0
     \<and> u_temperature d' = u_temperature d0 \<and> u_intensity d' = u_intensity d0
     \<and> u_hour_of_day d' = u_hour_of_day d0"
    by blast
  have mn: "m \<le> n" using l(3) by auto
  have same: "u_catch_all d0 = u_catch_all d" "u_device_details d0 = u_device_details d"
    "u_button_action d0 = u_button_action d" "u_temperature d0 = u_temperature d"
    "u_intensity d0 = u_intensity d" "u_hour_of_day d0 = u_hour_of_day d"
    using e(2) by (simp_all add: cached_def)
  have n7: "n \<le> 7"
    using l(1) by simp
  have full: "w' = snd (snd (ensure_session st))
              @ map (info_request (client_session st) (uri (fst st))) (take n ?es)"
    using l(2) e(3,5) en by (simp add: st)
  have reqs: "requests w'
         = requests (snd st)
           @ map (info_request (client_session st) (uri (fst st))) (take n ?es)"
    using l(2) e(3,4,5) by (simp add: st requests_def info_request_def)
  have outcome: "r = Inr JNull \<and> n = 7 \<and> m = 7
          \<or> r = Inl TransportFailure \<and> n = Suc m \<and> dev w' = Failure"
    using l(3) by auto
  have vals: "\<exists>v. dev (take (length w' - n + Suc i) w') = Body v
            \<and> (distinct ?es \<longrightarrow> map_of (u_catch_all d') (?es ! i) = Some v)" if "i < m" for i
  proof -
    have "i < n" using that mn by simp
    then have "take (length w' - n + Suc i) w'
                 = w0 @ map (info_request s (uri d0)) (take (Suc i) ?es)"
      using l(1,2) by (simp add: take_map min_def)
    moreover have "?es ! i \<notin> set (drop (Suc i) (take m ?es))" if "distinct ?es"
      using distinct_nth_notin_drop [of "take m ?es" i] that \<open>i < m\<close> mn l(1) by simp
    ultimately show ?thesis
      using l(4) that by auto
  qed
  have rest: "\<forall>k. k \<notin> set (take m ?es) \<longrightarrow>
      map_of (u_catch_all d') k = map_of (u_catch_all (fst st)) k"
    using l(5) same(1) by (simp add: st)
  have keys: "distinct ?es \<longrightarrow>
          map fst (u_catch_all d')
            = map fst (u_catch_all (fst st))
              @ filter (\<lambda>k. k \<notin> fst ` set (u_catch_all (fst st))) (take m ?es)"
    using l(6) same(1) by (simp add: st)
  have scalars: "u_device_details d' = u_device_details (fst st)
     \<and> u_button_action d' = u_button_action (fst st)
     \<and> u_temperature d' = u_temperature (fst st)
     \<and> u_intensity d' = u_intensity (fst st)
     \<and> u_hour_of_day d' = u_hour_of_day (fst st)"
    using l(7) same by (simp add: st)
  from n7 full reqs outcome vals rest keys scalars show ?thesis
    by (intro exI [of _ n] exI [of _ m] conjI) blast+
qed

lemma take_filter_prefix:
  assumes "distinct es"
  shows "take j es @ filter (\<lambda>k. k \<notin> set (take j es)) (take m es) = take (max j m) es"
proof (cases "m \<le> j")
  case True
  then have "set (take m es) \<subseteq> set (take j es)"
    by (rule set_take_subset_set_take)
  then have "filter (\<lambda>k. k \<notin> set (take j es)) (take m es) = []"
    by (auto simp: filter_empty_conv)
  with True show ?thesis
    by (simp add: max_def)
next
  case False
  then have jm: "j < m" by simp
  have split: "take m es = take j es @ drop j (take m es)"
    using jm by (metis append_take_drop_id min.absorb1 less_imp_le take_take)
  from assms have "distinct (take m es)"
    by simp
  with split have "set (take j es) \<inter> set (drop j (take m es)) = {}"
    by (metis distinct_append)
  then have "filter (\<lambda>k. k \<notin> set (take j es)) (drop j (take m es)) = drop j (take m es)"
    by (auto simp: filter_id_conv)
  moreover have "filter (\<lambda>k. k \<notin> set (take j es)) (take j es) = []"
    by (simp add: filter_empty_conv)
  ultimately have "filter (\<lambda>k. k \<notin> set (take j es)) (take m es) = drop j (take m es)"
    by (metis append_Nil filter_append split)
  with split jm show ?thesis
    by (simp add: max_def)
qed

lemma exec_keeps_catch_all:
  assumes "exec c dev oper st = (r, d', w')" and "oper \<noteq> GetInfo"
  shows "u_catch_all d' = u_catch_all (fst st)"
proof -
  have mc: "u_catch_all d1 = u_catch_all (fst st)"
    if "make_call dev st u m x = (r1, d1, w1)" for u m x r1 d1 w1
    using make_call_sound(1) [of dev "fst st" "snd st"] that by (simp add: cached_def)
  show ?thesis
  proof (cases oper)
    case GetInfo
    with assms(2) show ?thesis by simp
  next
    case Close
    with assms(1) show ?thesis
      by (cases st) (auto simp: close_def split: option.splits if_splits)
  qed (use assms(1) in
        \<open>auto simp: get_device_info_def get_temperature_def get_button_action_def get_light_def
           enabled_def turn_on_def turn_off_def Let_def
           split: prod.splits sum.splits dest!: mc\<close>)
qed

lemma exec_keys_prefix:
  assumes "distinct (info_endpoints c)"
    and "\<exists>j. map fst (u_catch_all (fst st)) = take j (info_endpoints c)"
    and "exec c dev oper st = (r, d', w')"
  shows "\<exists>j. map fst (u_catch_all d') = take j (info_endpoints c)"
proof (cases "oper = GetInfo")
  case True
  from assms(2) obtain j where j: "map fst (u_catch_all (fst st)) = take j (info_endpoints c)" ..
  then have set: "fst ` set (u_catch_all (fst st)) = set (take j (info_endpoints c))"
    by (metis list.set_map)
  from True assms(3) have "get_info c dev st = (r, d', w')"
    by simp
  from get_info_sound [OF this] assms(1) obtain m where
    "map fst (u_catch_all d')
       = map fst (u_catch_all (fst st))
         @ filter (\<lambda>k. k \<notin> fst ` set (u_catch_all (fst st))) (take m (info_endpoints c))"
    by blast
  with j set take_filter_prefix [OF assms(1), of j m] show ?thesis
    by auto
next
  case False
  from exec_keeps_catch_all [OF assms(3) False] assms(2) show ?thesis
    by simp
qed

lemma run_keys_prefix:
  assumes "distinct (info_endpoints c)"
    and "\<exists>j. map fst (u_catch_all d) = take j (info_endpoints c)"
    and "run c dev ops (d, w) = (outs, d', w')"
  shows "\<exists>j. map fst (u_catch_all d') = take j (info_endpoints c)"
  using assms(2,3)
proof (induction ops arbitrary: d w outs)
  case Nil
  then show ?case by simp
next
  case (Cons oper ops)
  obtain r d1 w1 where ex: "exec c dev oper (d, w) = (r, d1, w1)"
    by (metis prod_cases3)
  obtain rs where rest: "run c dev ops (d1, w1) = (rs, d', w')"
    using Cons.prems(2) ex by (auto split: prod.splits)
  from exec_keys_prefix [OF assms(1) _ ex] Cons.prems(1)
  have "\<exists>j. map fst (u_catch_all d1) = take j (info_endpoints c)"
    by simp
  from Cons.IH [OF this rest] show ?case .
qed

text \<open>
  C3, as amended. A call of \<^verbatim>\<open>get_info\<close> sends \<^verbatim>\<open>GET\<close> requests for the endpoints in
  the order puck, device info, settings, motion sensor, thermostat, inputs, button
  actions, each after the one before it was answered, and stops at the first that fails:
  a successful call sends exactly seven, a call whose request number \<open>n\<close> fails sends
  exactly \<open>n\<close> and raises. When the seven names differ, every answered endpoint is a key
  of \<^verbatim>\<open>everything\<close> with the body of its request in this call as value, and the keys
  after the call are the keys before it followed by the answered names that were no key.
  So after a successful call the keys are the seven names whenever the keys before were
  the first few of them, which is the case for every client that has been used in any
  way since it was made: a second call overwrites and does not append.
\<close>

theorem get_info_sequential:
  assumes "get_info c dev st = (r, d', w')"
  shows "\<exists>n m. 1 \<le> n \<and> n \<le> 7
     \<and> requests w'
         = requests (snd st)
           @ map (info_request (client_session st) (uri (fst st))) (take n (info_endpoints c))
     \<and> (r = Inr JNull \<and> n = 7 \<and> m = 7
          \<or> r = Inl TransportFailure \<and> n = Suc m \<and> dev w' = Failure)
     \<and> (\<forall>i<m. \<exists>v. dev (take (length w' - n + Suc i) w') = Body v
            \<and> (distinct (info_endpoints c) \<longrightarrow>
                 map_of (everything d') (info_endpoints c ! i) = Some v))
     \<and> (distinct (info_endpoints c) \<longrightarrow>
          map fst (everything d')
            = map fst (everything (fst st))
              @ filter (\<lambda>k. k \<notin> set (map fst (everything (fst st))))
                  (take m (info_endpoints c)))
     \<and> (r = Inr JNull \<and> distinct (info_endpoints c)
          \<and> (\<exists>j. map fst (everything (fst st)) = take j (info_endpoints c)) \<longrightarrow>
          map fst (everything d') = info_endpoints c)
     \<and> (\<forall>dev0 ops host sess w0 outs.
           r = Inr JNull \<and> distinct (info_endpoints c)
           \<and> run c dev0 ops (init c host sess, w0) = (outs, st) \<longrightarrow>
           map fst (everything d') = info_endpoints c)"
proof -
  let ?es = "info_endpoints c"
  from get_info_sound [OF assms] obtain n m where l:
    "n \<le> 7"
    "requests w'
       = requests (snd st) @ map (info_request (client_session st) (uri (fst st))) (take n ?es)"
    "r = Inr JNull \<and> n = 7 \<and> m = 7 \<or> r = Inl TransportFailure \<and> n = Suc m \<and> dev w' = Failure"
    "\<forall>i<m. \<exists>v. dev (take (length w' - n + Suc i) w') = Body v
            \<and> (distinct ?es \<longrightarrow> map_of (u_catch_all d') (?es ! i) = Some v)"
    "distinct ?es \<longrightarrow>
       map fst (u_catch_all d')
         = map fst (u_catch_all (fst st))
           @ filter (\<lambda>k. k \<notin> fst ` set (u_catch_all (fst st))) (take m ?es)"
    by blast
  have n1: "1 \<le> n"
    using l(3) by auto
  have vals: "\<forall>i<m. \<exists>v. dev (take (length w' - n + Suc i) w') = Body v
            \<and> (distinct ?es \<longrightarrow> map_of (everything d') (?es ! i) = Some v)"
    using l(4) by (simp add: everything_def)
  have keys: "distinct ?es \<longrightarrow>
          map fst (everything d')
            = map fst (everything (fst st))
              @ filter (\<lambda>k. k \<notin> set (map fst (everything (fst st)))) (take m ?es)"
    using l(5) by (simp add: everything_def)
  have prefix: "map fst (everything d') = ?es"
    if "r = Inr JNull" "distinct ?es" "map fst (everything (fst st)) = take j ?es" for j
  proof -
    from that(1) l(3) have "m = 7" by auto
    with keys that(2,3) take_filter_prefix [OF that(2), of j m] show ?thesis
      by simp
  qed
  have reach: "map fst (everything d') = ?es"
    if "r = Inr JNull" "distinct ?es" "run c dev0 ops (init c host sess, w0) = (outs, st)"
    for dev0 ops host sess w0 outs
  proof -
    have "\<exists>j. map fst (u_catch_all (init c host sess)) = take j ?es"
      by (intro exI [of _ 0]) (simp add: init_def)
    from run_keys_prefix [OF that(2) this, of dev0 ops w0 outs "fst st" "snd st"] that(3)
    obtain j where "map fst (everything (fst st)) = take j ?es"
      by (auto simp: everything_def)
    with prefix that(1,2) show ?thesis
      by blast
  qed
  from n1 l(1,2,3) vals keys prefix reach show ?thesis
    by (intro exI [of _ n] exI [of _ m] conjI) blast+
qed

lemma get_info_example:
  "fst (get_info example_constants counting_device
         (init example_constants ''1.2.3.4'' None, [])) = Inr JNull"
  by code_simp

lemma get_info_recovering_example:
  "fst (get_info example_constants recovering_device
         (init example_constants ''1.2.3.4'' None, [])) = Inl TransportFailure
   \<and> map fst (everything (fst (snd (get_info example_constants recovering_device
                                       (init example_constants ''1.2.3.4'' None, [])))))
       = [''puck'']
   \<and> fst (get_info example_constants recovering_device
            (snd (get_info example_constants recovering_device
                    (init example_constants ''1.2.3.4'' None, [])))) = Inr JNull"
  by code_simp

theorem get_info_sequential_witness:
  "(\<exists>d' w'. get_info example_constants counting_device
               (init example_constants ''1.2.3.4'' None, []) = (Inr JNull, d', w')
      \<and> distinct (info_endpoints example_constants)
      \<and> length (requests w') = 7
      \<and> map fst (everything d') = info_endpoints example_constants)
   \<and> map fst (everything (fst (snd (get_info example_constants recovering_device
                                       (init example_constants ''1.2.3.4'' None, [])))))
       = [''puck'']
   \<and> (\<exists>d' w'. get_info example_constants recovering_device
                 (snd (get_info example_constants recovering_device
                         (init example_constants ''1.2.3.4'' None, []))) = (Inr JNull, d', w')
        \<and> map fst (everything d') = info_endpoints example_constants)"
proof -
  let ?st = "(init example_constants ''1.2.3.4'' None, [] :: world)"
  let ?out = "get_info example_constants counting_device ?st"
  let ?fail = "get_info example_constants recovering_device ?st"
  let ?next = "get_info example_constants recovering_device (snd ?fail)"
  have dist: "distinct (info_endpoints example_constants)"
    by (simp add: info_endpoints_def example_constants_def)
  have run: "?out = (Inr JNull, fst (snd ?out), snd (snd ?out))"
    using get_info_example by (metis prod.collapse)
  have empty: "map fst (everything (fst ?st)) = take 0 (info_endpoints example_constants)"
    by (simp add: everything_def init_def)
  from get_info_sequential [OF run] obtain n m where a:
    "requests (snd (snd ?out))
       = requests (snd ?st)
         @ map (info_request (client_session ?st) (uri (fst ?st)))
             (take n (info_endpoints example_constants))"
    "Inr JNull = (Inr JNull :: py_error + json) \<and> n = 7 \<and> m = 7
       \<or> (Inr JNull :: py_error + json) = Inl TransportFailure \<and> n = Suc m
          \<and> counting_device (snd (snd ?out)) = Failure"
    "Inr JNull = (Inr JNull :: py_error + json) \<and> distinct (info_endpoints example_constants)
       \<and> (\<exists>j. map fst (everything (fst ?st)) = take j (info_endpoints example_constants)) \<longrightarrow>
       map fst (everything (fst (snd ?out))) = info_endpoints example_constants"
    by blast
  from a(2) have "n = 7" by simp
  with a(1) have len: "length (requests (snd (snd ?out))) = 7"
    by (simp add: requests_def)
  from a(3) dist empty have keys: "map fst (everything (fst (snd ?out)))
      = info_endpoints example_constants"
    by blast
  from run dist len keys have first: "\<exists>d' w'. ?out = (Inr JNull, d', w')
      \<and> distinct (info_endpoints example_constants)
      \<and> length (requests w') = 7
      \<and> map fst (everything d') = info_endpoints example_constants"
    by blast
  have again: "?next = (Inr JNull, fst (snd ?next), snd (snd ?next))"
    using get_info_recovering_example by (metis prod.collapse)
  have before: "run example_constants recovering_device [GetInfo] ?st
      = ([(GetInfo, fst ?fail)], snd ?fail)"
    by (simp split: prod.splits)
  from get_info_sequential [OF again] have
    "\<forall>dev0 ops host sess w0 outs.
       Inr JNull = (Inr JNull :: py_error + json) \<and> distinct (info_endpoints example_constants)
       \<and> run example_constants dev0 ops (init example_constants host sess, w0) = (outs, snd ?fail)
       \<longrightarrow> map fst (everything (fst (snd ?next))) = info_endpoints example_constants"
    by blast
  with dist before have "map fst (everything (fst (snd ?next))) = info_endpoints example_constants"
    by blast
  with again have second: "\<exists>d' w'. ?next = (Inr JNull, d', w')
      \<and> map fst (everything d') = info_endpoints example_constants"
    by blast
  from first second get_info_recovering_example show ?thesis
    by blast
qed

text \<open>
  C3 as stated fails for a call that does not succeed: when the device cannot be reached,
  \<^verbatim>\<open>get_info\<close> raises after one request, not seven.
\<close>

theorem get_info_counterexample:
  "fst (get_info example_constants unreachable_device
         (init example_constants ''1.2.3.4'' None, [])) = Inl TransportFailure
   \<and> length (requests (snd (snd (get_info example_constants unreachable_device
                                   (init example_constants ''1.2.3.4'' None, []))))) = 1
   \<and> length (requests (snd (snd (get_info example_constants unreachable_device
                                   (init example_constants ''1.2.3.4'' None, []))))) \<noteq> 7"
  by code_simp

subsection \<open>Failed calls\<close>

lemma getitem_no_transport [simp]: "getitem v k \<noteq> Inl TransportFailure"
  by (cases "(v, k)" rule: getitem.cases) (auto split: option.splits)

lemma make_call_fails:
  assumes "dev (snd (snd (ensure_session st)) @ [Request (client_session st) m u x]) = Failure"
  shows "make_call dev st u m x
           = (Inl TransportFailure, fst (snd (ensure_session st)),
              snd (snd (ensure_session st)) @ [Request (client_session st) m u x])"
  using assms by (cases "ensure_session st") (simp add: make_call_def client_session_def)

lemma ensure_session_cached: "cached (fst (snd (ensure_session st))) = cached (fst st)"
  by (cases st) (simp add: ensure_session_def cached_def split: option.splits)

lemma single_call_fails:
  assumes "oper \<noteq> GetInfo" and "oper \<noteq> Close"
    and "dev (call_trace c oper st (Suc 0)) = Failure"
  shows "\<exists>d'. exec c dev oper st = (Inl TransportFailure, d', call_trace c oper st (Suc 0))
           \<and> cached d' = cached (fst st)"
proof -
  let ?d = "fst (snd (ensure_session st))"
  have "exec c dev oper st = (Inl TransportFailure, ?d, call_trace c oper st (Suc 0))"
  proof (cases oper)
    case GetDeviceInfo
    with assms(3) show ?thesis
      by (simp add: get_device_info_def call_trace_def request_to_def make_call_fails)
  next
    case GetInfo
    with assms(1) show ?thesis by simp
  next
    case GetTemperature
    with assms(3) show ?thesis
      by (simp add: get_temperature_def call_trace_def request_to_def make_call_fails)
  next
    case GetButtonAction
    with assms(3) show ?thesis
      by (simp add: get_button_action_def call_trace_def request_to_def make_call_fails)
  next
    case GetLight
    with assms(3) show ?thesis
      by (simp add: get_light_def call_trace_def request_to_def make_call_fails)
  next
    case Enabled
    with assms(3) show ?thesis
      by (simp add: enabled_def call_trace_def request_to_def make_call_fails)
  next
    case TurnOn
    with assms(3) show ?thesis
      by (simp add: turn_on_def call_trace_def request_to_def make_call_fails)
  next
    case TurnOff
    with assms(3) show ?thesis
      by (simp add: turn_off_def call_trace_def request_to_def make_call_fails)
  next
    case Close
    with assms(2) show ?thesis by simp
  qed
  with ensure_session_cached [of st] show ?thesis
    by blast
qed

lemma call_trace_get_info:
  "call_trace c GetInfo st k
     = snd (snd (ensure_session st))
       @ map (info_request (client_session st) (uri (fst st))) (take k (info_endpoints c))"
  by (simp add: call_trace_def take_map request_to_def info_request_def)

lemma take_call_trace:
  assumes "i < n" and "n \<le> 7"
  shows "take (length (call_trace c GetInfo st n) - n + Suc i) (call_trace c GetInfo st n)
           = call_trace c GetInfo st (Suc i)"
  using assms by (simp add: call_trace_get_info take_map min_def)

lemma get_info_fails:
  assumes "m < 7"
    and "\<forall>i<m. dev (call_trace c GetInfo st (Suc i)) \<noteq> Failure"
    and "dev (call_trace c GetInfo st (Suc m)) = Failure"
  shows "\<exists>d'. get_info c dev st = (Inl TransportFailure, d', call_trace c GetInfo st (Suc m))
     \<and> u_device_details d' = u_device_details (fst st)
     \<and> u_button_action d' = u_button_action (fst st)
     \<and> u_temperature d' = u_temperature (fst st)
     \<and> u_intensity d' = u_intensity (fst st)
     \<and> u_hour_of_day d' = u_hour_of_day (fst st)
     \<and> (\<forall>k. k \<notin> set (take m (info_endpoints c)) \<longrightarrow>
           map_of (u_catch_all d') k = map_of (u_catch_all (fst st)) k)
     \<and> (\<forall>i<m. \<exists>b. dev (call_trace c GetInfo st (Suc i)) = Body b
            \<and> (distinct (info_endpoints c) \<longrightarrow>
                 map_of (u_catch_all d') (info_endpoints c ! i) = Some b))"
proof -
  obtain r d' w' where out: "get_info c dev st = (r, d', w')"
    by (metis prod_cases3)
  from get_info_sound [OF out] obtain n k where l:
    "n \<le> 7"
    "w' = snd (snd (ensure_session st))
            @ map (info_request (client_session st) (uri (fst st))) (take n (info_endpoints c))"
    "r = Inr JNull \<and> n = 7 \<and> k = 7 \<or> r = Inl TransportFailure \<and> n = Suc k \<and> dev w' = Failure"
    "\<forall>i<k. \<exists>v. dev (take (length w' - n + Suc i) w') = Body v
            \<and> (distinct (info_endpoints c) \<longrightarrow>
                 map_of (u_catch_all d') (info_endpoints c ! i) = Some v)"
    "\<forall>j. j \<notin> set (take k (info_endpoints c)) \<longrightarrow>
           map_of (u_catch_all d') j = map_of (u_catch_all (fst st)) j"
    "u_device_details d' = u_device_details (fst st)"
    "u_button_action d' = u_button_action (fst st)"
    "u_temperature d' = u_temperature (fst st)"
    "u_intensity d' = u_intensity (fst st)"
    "u_hour_of_day d' = u_hour_of_day (fst st)"
    by blast
  from l(2) have w': "w' = call_trace c GetInfo st n"
    by (simp add: call_trace_get_info)
  from l(3) have kn: "k \<le> n"
    by auto
  have answered: "\<exists>v. dev (call_trace c GetInfo st (Suc i)) = Body v
            \<and> (distinct (info_endpoints c) \<longrightarrow>
                 map_of (u_catch_all d') (info_endpoints c ! i) = Some v)" if "i < k" for i
  proof -
    from that kn have "i < n" by simp
    from take_call_trace [OF this l(1), of c st] l(4) that show ?thesis
      unfolding w' by auto
  qed
  have "\<not> m < k"
  proof
    assume "m < k"
    from answered [OF this] assms(3) show False
      by simp
  qed
  moreover have "\<not> k < m"
  proof
    assume less: "k < m"
    with assms(1) l(3) have "n = Suc k" "dev w' = Failure"
      by auto
    with w' assms(2) less show False
      by auto
  qed
  ultimately have km: "k = m"
    by simp
  with assms(1) l(3) have "r = Inl TransportFailure" "n = Suc m"
    by auto
  with out w' km l(5-10) answered show ?thesis
    by auto
qed

text \<open>
  C4, as amended. When the HTTP request of a call fails, the call raises the transport
  error and the attributes \<^verbatim>\<open>_device_details\<close>, \<^verbatim>\<open>_button_action\<close>, \<^verbatim>\<open>_temperature\<close>,
  \<^verbatim>\<open>_intensity\<close> and \<^verbatim>\<open>_hour_of_day\<close>, and so the properties that read them, are as
  before. \<^verbatim>\<open>everything\<close> is as before after every method but \<^verbatim>\<open>get_info\<close>; when request
  number \<open>m + 1\<close> of \<^verbatim>\<open>get_info\<close> fails after \<open>m\<close> answered ones, the keys other than
  the first \<open>m\<close> endpoints are as before, and each of the first \<open>m\<close> endpoints holds the
  body of its request in this call (when the seven names differ). The trace ends with the
  failed request: the method sends nothing after it.
\<close>

theorem failed_call_keeps_cache:
  assumes "m < length (calls_of c oper)"
    and "\<forall>i<m. dev (call_trace c oper st (Suc i)) \<noteq> Failure"
    and "dev (call_trace c oper st (Suc m)) = Failure"
  shows "\<exists>d'. exec c dev oper st = (Inl TransportFailure, d', call_trace c oper st (Suc m))
     \<and> device_details d' = device_details (fst st)
     \<and> button_action d' = button_action (fst st)
     \<and> u_temperature d' = u_temperature (fst st) \<and> temperature d' = temperature (fst st)
     \<and> u_intensity d' = u_intensity (fst st) \<and> intensity d' = intensity (fst st)
     \<and> u_hour_of_day d' = u_hour_of_day (fst st)
     \<and> day d' = day (fst st) \<and> night d' = night (fst st)
     \<and> (oper \<noteq> GetInfo \<longrightarrow> everything d' = everything (fst st))
     \<and> (\<forall>k. k \<notin> set (take m (info_endpoints c)) \<longrightarrow>
           map_of (everything d') k = map_of (everything (fst st)) k)
     \<and> (oper = GetInfo \<longrightarrow>
          (\<forall>i<m. \<exists>b. dev (call_trace c oper st (Suc i)) = Body b
              \<and> (distinct (info_endpoints c) \<longrightarrow>
                   map_of (everything d') (info_endpoints c ! i) = Some b)))"
proof -
  have core: "\<exists>d'. exec c dev oper st = (Inl TransportFailure, d', call_trace c oper st (Suc m))
     \<and> u_device_details d' = u_device_details (fst st)
     \<and> u_button_action d' = u_button_action (fst st)
     \<and> u_temperature d' = u_temperature (fst st)
     \<and> u_intensity d' = u_intensity (fst st)
     \<and> u_hour_of_day d' = u_hour_of_day (fst st)
     \<and> (oper \<noteq> GetInfo \<longrightarrow> u_catch_all d' = u_catch_all (fst st))
     \<and> (\<forall>k. k \<notin> set (take m (info_endpoints c)) \<longrightarrow>
           map_of (u_catch_all d') k = map_of (u_catch_all (fst st)) k)
     \<and> (oper = GetInfo \<longrightarrow>
          (\<forall>i<m. \<exists>b. dev (call_trace c oper st (Suc i)) = Body b
              \<and> (distinct (info_endpoints c) \<longrightarrow>
                   map_of (u_catch_all d') (info_endpoints c ! i) = Some b)))"
  proof (cases "oper = GetInfo")
    case True
    with assms(1) have "m < 7"
      by simp
    from get_info_fails [OF this, of dev c st] assms(2,3) True show ?thesis
      by simp
  next
    case False
    from assms(1) have close: "oper \<noteq> Close"
      by auto
    from False assms(1) have "m = 0"
      by (cases oper) simp_all
    with single_call_fails [OF False close, of dev c st] assms(3) False show ?thesis
      by (auto simp: cached_def)
  qed
  then obtain d' where d':
    "exec c dev oper st = (Inl TransportFailure, d', call_trace c oper st (Suc m))"
    "u_device_details d' = u_device_details (fst st)"
    "u_button_action d' = u_button_action (fst st)"
    "u_temperature d' = u_temperature (fst st)"
    "u_intensity d' = u_intensity (fst st)"
    "u_hour_of_day d' = u_hour_of_day (fst st)"
    "oper \<noteq> GetInfo \<longrightarrow> u_catch_all d' = u_catch_all (fst st)"
    "\<forall>k. k \<notin> set (take m (info_endpoints c)) \<longrightarrow>
           map_of (u_catch_all d') k = map_of (u_catch_all (fst st)) k"
    "oper = GetInfo \<longrightarrow>
          (\<forall>i<m. \<exists>b. dev (call_trace c oper st (Suc i)) = Body b
              \<and> (distinct (info_endpoints c) \<longrightarrow>
                   map_of (u_catch_all d') (info_endpoints c ! i) = Some b))"
    by blast
  from d'(2-6) have read: "device_details d' = device_details (fst st)"
    "button_action d' = button_action (fst st)"
    "temperature d' = temperature (fst st)" "intensity d' = intensity (fst st)"
    "day d' = day (fst st)" "night d' = night (fst st)"
    by (simp_all add: device_details_def button_action_def temperature_def intensity_def
        day_def night_def)
  from d'(7-9) have agg: "oper \<noteq> GetInfo \<longrightarrow> everything d' = everything (fst st)"
    "\<forall>k. k \<notin> set (take m (info_endpoints c)) \<longrightarrow>
           map_of (everything d') k = map_of (everything (fst st)) k"
    "oper = GetInfo \<longrightarrow>
          (\<forall>i<m. \<exists>b. dev (call_trace c oper st (Suc i)) = Body b
              \<and> (distinct (info_endpoints c) \<longrightarrow>
                   map_of (everything d') (info_endpoints c ! i) = Some b))"
    by (simp_all add: everything_def)
  from d'(1,4,5,6) read agg show ?thesis
    by (intro exI [of _ d'] conjI)
qed

lemma cooling_example:
  "fst (exec example_constants cooling_device GetTemperature
         (init example_constants ''1.2.3.4'' None, [])) = Inr JNull
   \<and> temperature (fst (snd (exec example_constants cooling_device GetTemperature
                              (init example_constants ''1.2.3.4'' None, []))))
       = Inr (JFloat (to_binary64 (214 / 10)))
   \<and> cooling_device (call_trace example_constants GetTemperature
        (snd (exec example_constants cooling_device GetTemperature
                (init example_constants ''1.2.3.4'' None, []))) (Suc 0)) = Failure"
  by code_simp

lemma fading_example:
  "map_of (everything (fst (snd (exec example_constants fading_device GetInfo
                                   (init example_constants ''1.2.3.4'' None, [])))))
      ''device'' = Some (JInt 3)
   \<and> fading_device (call_trace example_constants GetInfo
        (snd (exec example_constants fading_device GetInfo
                (init example_constants ''1.2.3.4'' None, []))) (Suc 0)) \<noteq> Failure
   \<and> fading_device (call_trace example_constants GetInfo
        (snd (exec example_constants fading_device GetInfo
                (init example_constants ''1.2.3.4'' None, []))) (Suc (Suc 0))) = Failure"
  by code_simp

theorem failed_call_keeps_cache_witness:
  "(\<exists>d' w'. exec example_constants cooling_device GetTemperature
               (snd (exec example_constants cooling_device GetTemperature
                       (init example_constants ''1.2.3.4'' None, [])))
             = (Inl TransportFailure, d', w')
      \<and> temperature d' = Inr (JFloat (to_binary64 (214 / 10))))
   \<and> (\<exists>d' w'. exec example_constants fading_device GetInfo
                 (snd (exec example_constants fading_device GetInfo
                         (init example_constants ''1.2.3.4'' None, [])))
               = (Inl TransportFailure, d', w')
        \<and> map_of (everything d') ''device'' = Some (JInt 3))"
proof -
  let ?c = example_constants
  let ?init = "(init example_constants ''1.2.3.4'' None, [] :: world)"
  let ?st = "snd (exec ?c cooling_device GetTemperature ?init)"
  let ?su = "snd (exec ?c fading_device GetInfo ?init)"
  have one: "(0 :: nat) < length (calls_of ?c GetTemperature)"
    by simp
  have none: "\<forall>i<0 :: nat. cooling_device (call_trace ?c GetTemperature ?st (Suc i)) \<noteq> Failure"
    by simp
  have fails: "cooling_device (call_trace ?c GetTemperature ?st (Suc 0)) = Failure"
    using cooling_example by simp
  from failed_call_keeps_cache [OF one none fails] obtain d' where
    "exec ?c cooling_device GetTemperature ?st
       = (Inl TransportFailure, d', call_trace ?c GetTemperature ?st (Suc 0))"
    "temperature d' = temperature (fst ?st)"
    by blast
  with cooling_example have first: "\<exists>d' w'. exec ?c cooling_device GetTemperature ?st
             = (Inl TransportFailure, d', w')
      \<and> temperature d' = Inr (JFloat (to_binary64 (214 / 10)))"
    by auto
  have two: "Suc 0 < length (calls_of ?c GetInfo)"
    by simp
  have answered: "\<forall>i<Suc 0. fading_device (call_trace ?c GetInfo ?su (Suc i)) \<noteq> Failure"
    using fading_example by simp
  have failed: "fading_device (call_trace ?c GetInfo ?su (Suc (Suc 0))) = Failure"
    using fading_example by simp
  have other: "''device'' \<notin> set (take (Suc 0) (info_endpoints ?c))"
    by (simp add: info_endpoints_def example_constants_def)
  from failed_call_keeps_cache [OF two answered failed] obtain e' where
    "exec ?c fading_device GetInfo ?su
       = (Inl TransportFailure, e', call_trace ?c GetInfo ?su (Suc (Suc 0)))"
    "\<forall>k. k \<notin> set (take (Suc 0) (info_endpoints ?c)) \<longrightarrow>
       map_of (everything e') k = map_of (everything (fst ?su)) k"
    by blast
  with other fading_example have second: "\<exists>d' w'. exec ?c fading_device GetInfo ?su
               = (Inl TransportFailure, d', w')
        \<and> map_of (everything d') ''device'' = Some (JInt 3)"
    by auto
  from first second show ?thesis
    by simp
qed


text \<open>
  C4 as stated fails for \<^verbatim>\<open>get_info\<close>: after a first, successful call the key
  \<^verbatim>\<open>puck\<close> holds 2; in the second call the device answers the first request with 9 and
  not the second, the call raises, and the key holds 9.
\<close>

theorem failed_get_info_counterexample:
  "fst (get_info example_constants fading_device
         (snd (get_info example_constants fading_device
                 (init example_constants ''1.2.3.4'' None, [])))) = Inl TransportFailure
   \<and> map_of (everything (fst (snd (get_info example_constants fading_device
                 (init example_constants ''1.2.3.4'' None, []))))) ''puck'' = Some (JInt 2)
   \<and> map_of (everything (fst (snd (get_info example_constants fading_device
         (snd (get_info example_constants fading_device
                 (init example_constants ''1.2.3.4'' None, []))))))) ''puck'' = Some (JInt 9)"
  by code_simp

subsection \<open>Closing\<close>

lemma exec_supplied_session:
  assumes "u_session d = Some s" and "\<not> u_close_session d"
    and "exec c dev oper (d, w) = (r, d', w')"
  shows "u_session d' = Some s \<and> \<not> u_close_session d'
     \<and> closes w' = closes w \<and> close_calls w' = close_calls w"
proof (cases oper)
  case GetInfo
  with assms(3) have "get_info_loop dev (info_endpoints c) (d, w) = (r, d', w')"
    by (simp add: get_info_def)
  from get_info_loop_sound [OF assms(1) this] assms(2) show ?thesis
    by (auto simp: closes_def close_calls_def info_request_def)
next
  case Close
  with assms show ?thesis
    by (auto simp: close_def)
qed (use assms in \<open>auto simp: get_device_info_def get_temperature_def get_button_action_def
      get_light_def enabled_def turn_on_def turn_off_def make_call_session closes_def
      close_calls_def Let_def split: reply.splits sum.splits\<close>)

lemma run_supplied_session:
  assumes "u_session d = Some s" and "\<not> u_close_session d"
    and "run c dev ops (d, w) = (outs, d', w')"
  shows "u_session d' = Some s \<and> \<not> u_close_session d'
     \<and> closes w' = closes w \<and> close_calls w' = close_calls w"
  using assms
proof (induction ops arbitrary: d w outs)
  case Nil
  then show ?case by simp
next
  case (Cons oper ops)
  obtain r d1 w1 where ex: "exec c dev oper (d, w) = (r, d1, w1)"
    by (metis prod_cases3)
  obtain rs where rest: "run c dev ops (d1, w1) = (rs, d', w')"
    using Cons.prems(3) ex by (auto split: prod.splits)
  from exec_supplied_session [OF Cons.prems(1,2) ex]
  have inv: "u_session d1 = Some s" "\<not> u_close_session d1" "closes w1 = closes w"
    "close_calls w1 = close_calls w"
    by simp_all
  from Cons.IH [OF inv(1,2) rest] inv(3,4) show ?case
    by simp
qed

lemma closes_session_close:
  "closes (session_close s w)
     = (if SessionClosed s \<in> set (closes w) then closes w else closes w @ [SessionClosed s])"
  by (simp add: session_close_def closes_def)

lemma exec_closes:
  assumes "exec c dev oper st = (r, d', w')" and "oper \<noteq> Close"
  shows "closes w' = closes (snd st)"
proof -
  have en: "closes (snd (snd (ensure_session st))) = closes (snd st)"
    by (cases st) (simp add: ensure_session_def closes_def split: option.splits)
  have mc: "closes w1 = closes (snd st)"
    if "make_call dev st u m x = (r1, d1, w1)" for u m x r1 d1 w1
    using that en
    by (cases "ensure_session st")
       (auto simp: make_call_def closes_def Let_def split: reply.splits)
  have pr: "closes (v @ [Printed x]) = closes v" for v x
    by (simp add: closes_def)
  show ?thesis
  proof (cases oper)
    case GetInfo
    with assms have "get_info c dev st = (r, d', w')"
      by simp
    from get_info_sound [OF this] obtain n where
      "w' = snd (snd (ensure_session st))
              @ map (info_request (client_session st) (uri (fst st))) (take n (info_endpoints c))"
      by blast
    then have "closes w' = closes (snd (snd (ensure_session st)))"
      by (simp add: closes_def info_request_def)
    with en show ?thesis by simp
  next
    case Close
    with assms(2) show ?thesis by simp
  qed (use assms(1) in
        \<open>auto simp: get_device_info_def get_temperature_def get_button_action_def get_light_def
           enabled_def turn_on_def turn_off_def Let_def pr
           split: prod.splits sum.splits dest!: mc\<close>)
qed

lemma exec_distinct_closes:
  assumes "distinct (closes (snd st))" and "exec c dev oper st = (r, d', w')"
  shows "distinct (closes w')"
proof (cases "oper = Close")
  case True
  with assms show ?thesis
    by (cases st)
       (auto simp: close_def closes_session_close split: option.splits if_splits)
next
  case False
  from exec_closes [OF assms(2) False] assms(1) show ?thesis
    by simp
qed

lemma run_distinct_closes:
  assumes "distinct (closes w)" and "run c dev ops (d, w) = (outs, d', w')"
  shows "distinct (closes w')"
  using assms
proof (induction ops arbitrary: d w outs)
  case Nil
  then show ?case by simp
next
  case (Cons oper ops)
  obtain r d1 w1 where ex: "exec c dev oper (d, w) = (r, d1, w1)"
    by (metis prod_cases3)
  obtain rs where rest: "run c dev ops (d1, w1) = (rs, d', w')"
    using Cons.prems(2) ex by (auto split: prod.splits)
  from exec_distinct_closes [OF _ ex] Cons.prems(1) have "distinct (closes w1)"
    by simp
  from Cons.IH [OF this rest] show ?case .
qed

lemma close_closed_session:
  assumes "u_session d = Some s" and "u_close_session d" and "SessionClosed s \<in> set w"
  shows "run c dev (replicate n Close) (d, w)
           = (replicate n (Close, Inr JNull), d, w @ replicate n (CloseCalled s))"
  using assms
proof (induction n arbitrary: w)
  case 0
  then show ?case by simp
next
  case (Suc n)
  have "close (d, w) = (Inr JNull, d, w @ [CloseCalled s])"
    using Suc.prems by (simp add: close_def session_close_def)
  moreover have "SessionClosed s \<in> set (w @ [CloseCalled s])"
    using Suc.prems(3) by simp
  ultimately show ?case
    using Suc.IH [OF Suc.prems(1,2), of "w @ [CloseCalled s]"]
    by (simp add: replicate_app_Cons_same)
qed

lemma close_own_session:
  assumes "u_session d = Some s" and "u_close_session d" and "SessionClosed s \<notin> set w"
  shows "run c dev (replicate (Suc n) Close) (d, w)
           = (replicate (Suc n) (Close, Inr JNull), d,
              w @ CloseCalled s # SessionClosed s # replicate n (CloseCalled s))"
proof -
  have "close (d, w) = (Inr JNull, d, w @ [CloseCalled s, SessionClosed s])"
    using assms by (simp add: close_def session_close_def)
  moreover have "SessionClosed s \<in> set (w @ [CloseCalled s, SessionClosed s])"
    by simp
  ultimately show ?thesis
    using close_closed_session [OF assms(1,2), of "w @ [CloseCalled s, SessionClosed s]" c dev n]
    by simp
qed

text \<open>
  C5. A client that was given a session never closes it, whatever is called and however
  often: the trace gains no call of the session's \<^verbatim>\<open>close\<close>, the session stays open and
  the client never owns it. A client that owns an open session, which is the case from
  the first call of the helper on a client that was given none, closes it in the first
  \<^verbatim>\<open>close\<close>; every further \<^verbatim>\<open>close\<close> calls the session's \<^verbatim>\<open>close\<close> again and closes
  nothing, so that after one or more calls the session was closed exactly once. A client
  without a session closes nothing, and in no sequence of calls is a session closed
  twice.
\<close>

theorem close_sessions:
  "(run c dev ops (init c host (Some s), w) = (outs, d', w') \<longrightarrow>
      closes w' = closes w \<and> close_calls w' = close_calls w
      \<and> u_session d' = Some s \<and> \<not> u_close_session d')
   \<and> (u_session d = Some s \<and> u_close_session d \<and> SessionClosed s \<notin> set w \<longrightarrow>
        run c dev (replicate (Suc n) Close) (d, w)
          = (replicate (Suc n) (Close, Inr JNull), d,
             w @ CloseCalled s # SessionClosed s # replicate n (CloseCalled s)))
   \<and> (u_session d = Some s \<and> u_close_session d \<and> SessionClosed s \<in> set w \<longrightarrow>
        close (d, w) = (Inr JNull, d, w @ [CloseCalled s]))
   \<and> (u_session d = None \<longrightarrow> close (d, w) = (Inr JNull, d, w))
   \<and> (u_session d = None \<and> make_call dev (d, w) u m x = (r, da, wa) \<longrightarrow>
        u_session da = Some (Created (length w)) \<and> u_close_session da)
   \<and> (distinct (closes w) \<and> run c dev ops (d, w) = (outs, d', w') \<longrightarrow> distinct (closes w'))"
proof (intro conjI impI)
  assume "run c dev ops (init c host (Some s), w) = (outs, d', w')"
  from run_supplied_session [OF _ _ this]
  have *: "u_session d' = Some s \<and> \<not> u_close_session d'
     \<and> closes w' = closes w \<and> close_calls w' = close_calls w"
    by (simp add: init_def)
  from * show "closes w' = closes w" by simp
  from * show "close_calls w' = close_calls w" by simp
  from * show "u_session d' = Some s" by simp
  from * show "\<not> u_close_session d'" by simp
next
  assume "u_session d = Some s \<and> u_close_session d \<and> SessionClosed s \<notin> set w"
  then show "run c dev (replicate (Suc n) Close) (d, w)
          = (replicate (Suc n) (Close, Inr JNull), d,
             w @ CloseCalled s # SessionClosed s # replicate n (CloseCalled s))"
    by (intro close_own_session) simp_all
next
  assume "u_session d = Some s \<and> u_close_session d \<and> SessionClosed s \<in> set w"
  then show "close (d, w) = (Inr JNull, d, w @ [CloseCalled s])"
    by (simp add: close_def session_close_def)
next
  assume "u_session d = None"
  then show "close (d, w) = (Inr JNull, d, w)"
    by (simp add: close_def)
next
  assume *: "u_session d = None \<and> make_call dev (d, w) u m x = (r, da, wa)"
  then show "u_session da = Some (Created (length w))"
    by (auto simp: make_call_def ensure_session_def Let_def split: reply.splits)
  from * show "u_close_session da"
    by (auto simp: make_call_def ensure_session_def Let_def split: reply.splits)
next
  assume "distinct (closes w) \<and> run c dev ops (d, w) = (outs, d', w')"
  then show "distinct (closes w')"
    using run_distinct_closes by blast
qed

lemma own_session_example:
  "u_session (fst (snd (turn_on example_constants counting_device
                          (init example_constants ''1.2.3.4'' None, [])))) = Some (Created 0)
   \<and> u_close_session (fst (snd (turn_on example_constants counting_device
                                  (init example_constants ''1.2.3.4'' None, []))))
   \<and> SessionClosed (Created 0)
       \<notin> set (snd (snd (turn_on example_constants counting_device
                           (init example_constants ''1.2.3.4'' None, []))))
   \<and> closes (snd (snd (turn_on example_constants counting_device
                          (init example_constants ''1.2.3.4'' None, [])))) = []"
  by code_simp

theorem close_sessions_witness:
  "(\<exists>outs d' w'. run example_constants counting_device [GetInfo, Close, Close]
                   (init example_constants ''1.2.3.4'' (Some (Supplied 0)), []) = (outs, d', w')
      \<and> closes w' = [] \<and> close_calls w' = [] \<and> \<not> u_close_session d')
   \<and> closes (snd (snd (run example_constants counting_device (replicate (Suc 1) Close)
                          (snd (turn_on example_constants counting_device
                                  (init example_constants ''1.2.3.4'' None, []))))))
       = [SessionClosed (Created 0)]
   \<and> close_calls (snd (snd (run example_constants counting_device (replicate (Suc 1) Close)
                          (snd (turn_on example_constants counting_device
                                  (init example_constants ''1.2.3.4'' None, []))))))
       = [CloseCalled (Created 0), CloseCalled (Created 0)]"
proof -
  let ?out = "run example_constants counting_device [GetInfo, Close, Close]
                (init example_constants ''1.2.3.4'' (Some (Supplied 0)), [])"
  let ?on = "turn_on example_constants counting_device
               (init example_constants ''1.2.3.4'' None, [])"
  let ?own = "fst (snd ?on)"
  let ?w = "snd (snd ?on)"
  have run: "?out = (fst ?out, fst (snd ?out), snd (snd ?out))"
    by simp
  from close_sessions [THEN conjunct1, THEN mp, OF run]
  have "closes (snd (snd ?out)) = [] \<and> close_calls (snd (snd ?out)) = []
      \<and> \<not> u_close_session (fst (snd ?out))"
    by (simp add: closes_def close_calls_def)
  with run have supplied: "\<exists>outs d' w'. ?out = (outs, d', w') \<and> closes w' = []
      \<and> close_calls w' = [] \<and> \<not> u_close_session d'"
    by blast
  have own: "u_session ?own = Some (Created 0) \<and> u_close_session ?own
      \<and> SessionClosed (Created 0) \<notin> set ?w"
    using own_session_example by simp
  have calls: "close_calls ?w = []"
    by code_simp
  from close_sessions [THEN conjunct2, THEN conjunct1, THEN mp, OF own]
  have "run example_constants counting_device (replicate (Suc 1) Close) (?own, ?w)
          = (replicate (Suc 1) (Close, Inr JNull), ?own,
             ?w @ CloseCalled (Created 0) # SessionClosed (Created 0)
                # replicate 1 (CloseCalled (Created 0)))" .
  then have "snd (snd (run example_constants counting_device (replicate (Suc 1) Close) (snd ?on)))
          = ?w @ CloseCalled (Created 0) # SessionClosed (Created 0)
                # replicate 1 (CloseCalled (Created 0))"
    by simp
  then have "closes (snd (snd (run example_constants counting_device (replicate (Suc 1) Close)
                                 (snd ?on)))) = [SessionClosed (Created 0)]
     \<and> close_calls (snd (snd (run example_constants counting_device (replicate (Suc 1) Close)
                                 (snd ?on)))) = [CloseCalled (Created 0), CloseCalled (Created 0)]"
    using own_session_example calls by (simp add: closes_def close_calls_def)
  with supplied show ?thesis
    by blast
qed

subsection \<open>What a call leaves alone\<close>

lemma get_info_frame:
  assumes "get_info c dev st = (r, d', w')"
  shows "u_device_details d' = u_device_details (fst st)
     \<and> u_button_action d' = u_button_action (fst st)
     \<and> u_temperature d' = u_temperature (fst st)
     \<and> u_intensity d' = u_intensity (fst st)
     \<and> u_hour_of_day d' = u_hour_of_day (fst st)"
proof -
  obtain d w where st: "st = (d, w)" by (cases st)
  obtain s d0 w0 where en: "ensure_session (d, w) = (s, d0, w0)" by (metis prod_cases3)
  note e = ensure_session_sound [OF en]
  have "get_info_loop dev (info_endpoints c) (d0, w0) = (r, d', w')"
    using assms get_info_loop_ensure [of "info_endpoints c" dev st] st en
    by (simp add: get_info_def info_endpoints_def)
  from get_info_loop_sound [OF e(1) this] e(2) show ?thesis
    by (auto simp: st cached_def)
qed

lemma getitem_state_cases:
  "getitem b ''intensity'' = Inr i \<Longrightarrow>
     (\<exists>v. getitem b ''state'' = Inr v) \<or> getitem b ''state'' = Inl (KeyError ''state'')"
  by (cases "(b, ''state'')" rule: getitem.cases) (auto split: option.splits)

lemma exec_frame:
  assumes "exec c dev oper (d, w) = (r, d', w')"
  shows "oper \<noteq> GetDeviceInfo \<or> (\<forall>v. r \<noteq> Inr v) \<Longrightarrow> u_device_details d' = u_device_details d"
    and "oper \<noteq> GetButtonAction \<or> (\<forall>v. r \<noteq> Inr v) \<Longrightarrow> u_button_action d' = u_button_action d"
    and "oper \<noteq> GetTemperature \<or> (\<forall>v. r \<noteq> Inr v) \<Longrightarrow> u_temperature d' = u_temperature d"
    and "oper \<noteq> GetLight \<or> (\<forall>v. r \<noteq> Inr v) \<Longrightarrow> u_hour_of_day d' = u_hour_of_day d"
    and "oper \<noteq> GetLight \<or> (\<forall>v. r \<noteq> Inr v) \<and> r \<noteq> Inl (KeyError ''state'') \<Longrightarrow>
           u_intensity d' = u_intensity d"
    and "oper \<noteq> GetInfo \<Longrightarrow> u_catch_all d' = u_catch_all d"
proof -
  have mc: "cached d1 = cached d"
    if "make_call dev (d, w) u m x = (r1, d1, w1)" for u m x r1 d1 w1
    using make_call_sound(1) [OF that] .
  have *: "(oper \<noteq> GetDeviceInfo \<or> (\<forall>v. r \<noteq> Inr v) \<longrightarrow> u_device_details d' = u_device_details d)
     \<and> (oper \<noteq> GetButtonAction \<or> (\<forall>v. r \<noteq> Inr v) \<longrightarrow> u_button_action d' = u_button_action d)
     \<and> (oper \<noteq> GetTemperature \<or> (\<forall>v. r \<noteq> Inr v) \<longrightarrow> u_temperature d' = u_temperature d)
     \<and> (oper \<noteq> GetLight \<or> (\<forall>v. r \<noteq> Inr v) \<longrightarrow> u_hour_of_day d' = u_hour_of_day d)
     \<and> (oper \<noteq> GetLight \<or> (\<forall>v. r \<noteq> Inr v) \<and> r \<noteq> Inl (KeyError ''state'') \<longrightarrow>
           u_intensity d' = u_intensity d)
     \<and> (oper \<noteq> GetInfo \<longrightarrow> u_catch_all d' = u_catch_all d)"
  proof (cases oper)
    case GetInfo
    with assms get_info_frame [of c dev "(d, w)" r d' w'] show ?thesis
      by simp
  next
    case GetLight
    with assms show ?thesis
      by (auto simp: get_light_def Let_def cached_def split: prod.splits sum.splits
          dest!: mc dest: getitem_state_cases)
  next
    case Close
    with assms show ?thesis
      by (auto simp: close_def session_close_def split: option.splits if_splits)
  qed (use assms in \<open>auto simp: get_device_info_def get_temperature_def get_button_action_def
        enabled_def turn_on_def turn_off_def Let_def cached_def
        split: prod.splits sum.splits dest!: mc\<close>)
  then show "oper \<noteq> GetDeviceInfo \<or> (\<forall>v. r \<noteq> Inr v) \<Longrightarrow> u_device_details d' = u_device_details d"
    and "oper \<noteq> GetButtonAction \<or> (\<forall>v. r \<noteq> Inr v) \<Longrightarrow> u_button_action d' = u_button_action d"
    and "oper \<noteq> GetTemperature \<or> (\<forall>v. r \<noteq> Inr v) \<Longrightarrow> u_temperature d' = u_temperature d"
    and "oper \<noteq> GetLight \<or> (\<forall>v. r \<noteq> Inr v) \<Longrightarrow> u_hour_of_day d' = u_hour_of_day d"
    and "oper \<noteq> GetLight \<or> (\<forall>v. r \<noteq> Inr v) \<and> r \<noteq> Inl (KeyError ''state'') \<Longrightarrow>
           u_intensity d' = u_intensity d"
    and "oper \<noteq> GetInfo \<Longrightarrow> u_catch_all d' = u_catch_all d"
    by blast+
qed


lemma run_frame:
  assumes "run c dev ops (d, w) = (outs, d', w')"
  shows "\<forall>v. (GetDeviceInfo, Inr v) \<notin> set outs \<Longrightarrow> u_device_details d' = u_device_details d"
    and "\<forall>v. (GetButtonAction, Inr v) \<notin> set outs \<Longrightarrow> u_button_action d' = u_button_action d"
    and "\<forall>v. (GetTemperature, Inr v) \<notin> set outs \<Longrightarrow> u_temperature d' = u_temperature d"
    and "\<forall>v. (GetLight, Inr v) \<notin> set outs \<Longrightarrow> u_hour_of_day d' = u_hour_of_day d"
    and "\<forall>v. (GetLight, Inr v) \<notin> set outs \<Longrightarrow> (GetLight, Inl (KeyError ''state'')) \<notin> set outs \<Longrightarrow>
           u_intensity d' = u_intensity d"
    and "\<forall>r. (GetInfo, r) \<notin> set outs \<Longrightarrow> u_catch_all d' = u_catch_all d"
  using assms
proof (induction ops arbitrary: d w outs)
  case Nil
  {
    case 1 then show ?case by simp
  next
    case 2 then show ?case by simp
  next
    case 3 then show ?case by simp
  next
    case 4 then show ?case by simp
  next
    case 5 then show ?case by simp
  next
    case 6 then show ?case by simp
  }
next
  case (Cons oper ops)
  {
    case 1
    obtain r d1 w1 where ex: "exec c dev oper (d, w) = (r, d1, w1)"
      by (metis prod_cases3)
    obtain rs where rest: "run c dev ops (d1, w1) = (rs, d', w')" and outs: "outs = (oper, r) # rs"
      using 1(2) ex by (auto split: prod.splits)
    from 1(1) outs have "oper \<noteq> GetDeviceInfo \<or> (\<forall>v. r \<noteq> Inr v)"
      and "\<forall>v. (GetDeviceInfo, Inr v) \<notin> set rs" by auto
    with exec_frame(1) [OF ex] Cons.IH(1) [OF _ rest] show ?case by simp
  next
    case 2
    obtain r d1 w1 where ex: "exec c dev oper (d, w) = (r, d1, w1)"
      by (metis prod_cases3)
    obtain rs where rest: "run c dev ops (d1, w1) = (rs, d', w')" and outs: "outs = (oper, r) # rs"
      using 2(2) ex by (auto split: prod.splits)
    from 2(1) outs have "oper \<noteq> GetButtonAction \<or> (\<forall>v. r \<noteq> Inr v)"
      and "\<forall>v. (GetButtonAction, Inr v) \<notin> set rs" by auto
    with exec_frame(2) [OF ex] Cons.IH(2) [OF _ rest] show ?case by simp
  next
    case 3
    obtain r d1 w1 where ex: "exec c dev oper (d, w) = (r, d1, w1)"
      by (metis prod_cases3)
    obtain rs where rest: "run c dev ops (d1, w1) = (rs, d', w')" and outs: "outs = (oper, r) # rs"
      using 3(2) ex by (auto split: prod.splits)
    from 3(1) outs have "oper \<noteq> GetTemperature \<or> (\<forall>v. r \<noteq> Inr v)"
      and "\<forall>v. (GetTemperature, Inr v) \<notin> set rs" by auto
    with exec_frame(3) [OF ex] Cons.IH(3) [OF _ rest] show ?case by simp
  next
    case 4
    obtain r d1 w1 where ex: "exec c dev oper (d, w) = (r, d1, w1)"
      by (metis prod_cases3)
    obtain rs where rest: "run c dev ops (d1, w1) = (rs, d', w')" and outs: "outs = (oper, r) # rs"
      using 4(2) ex by (auto split: prod.splits)
    from 4(1) outs have "oper \<noteq> GetLight \<or> (\<forall>v. r \<noteq> Inr v)"
      and "\<forall>v. (GetLight, Inr v) \<notin> set rs" by auto
    with exec_frame(4) [OF ex] Cons.IH(4) [OF _ rest] show ?case by simp
  next
    case 5
    obtain r d1 w1 where ex: "exec c dev oper (d, w) = (r, d1, w1)"
      by (metis prod_cases3)
    obtain rs where rest: "run c dev ops (d1, w1) = (rs, d', w')" and outs: "outs = (oper, r) # rs"
      using 5(3) ex by (auto split: prod.splits)
    from 5(1,2) outs have "oper \<noteq> GetLight \<or> (\<forall>v. r \<noteq> Inr v) \<and> r \<noteq> Inl (KeyError ''state'')"
      and "\<forall>v. (GetLight, Inr v) \<notin> set rs" and "(GetLight, Inl (KeyError ''state'')) \<notin> set rs"
      by auto
    with exec_frame(5) [OF ex] Cons.IH(5) [OF _ _ rest] show ?case by simp
  next
    case 6
    obtain r d1 w1 where ex: "exec c dev oper (d, w) = (r, d1, w1)"
      by (metis prod_cases3)
    obtain rs where rest: "run c dev ops (d1, w1) = (rs, d', w')" and outs: "outs = (oper, r) # rs"
      using 6(2) ex by (auto split: prod.splits)
    from 6(1) outs have "oper \<noteq> GetInfo" and "\<forall>r. (GetInfo, r) \<notin> set rs" by auto
    with exec_frame(6) [OF ex] Cons.IH(6) [OF _ rest] show ?case by simp
  }
qed

subsection \<open>Reading before a refresh\<close>

text \<open>
  C10, as amended. After any calls on a new client of which no \<^verbatim>\<open>get_temperature\<close>
  succeeded, the property \<^verbatim>\<open>temperature\<close> raises \<^verbatim>\<open>TypeError\<close>, since it rounds
  \<^verbatim>\<open>None\<close>. The property \<^verbatim>\<open>intensity\<close> raises as long as no \<^verbatim>\<open>get_light\<close> has stored an
  intensity: none succeeded and none raised \<^verbatim>\<open>KeyError\<close> for the field \<^verbatim>\<open>state\<close>, which is
  read after the intensity is stored.
\<close>

theorem accessors_raise_before_refresh:
  assumes "run c dev ops (init c host sess, w) = (outs, d', w')"
  shows "((\<forall>v. (GetTemperature, Inr v) \<notin> set outs) \<longrightarrow> temperature d' = Inl TypeError)
     \<and> ((\<forall>v. (GetLight, Inr v) \<notin> set outs) \<and> (GetLight, Inl (KeyError ''state'')) \<notin> set outs \<longrightarrow>
          intensity d' = Inl TypeError)"
  using run_frame(3,5) [OF assms]
  by (simp add: temperature_def intensity_def init_def)

lemma failing_run_example:
  "fst (run example_constants unreachable_device [GetLight, GetTemperature]
          (init example_constants ''1.2.3.4'' None, []))
     = [(GetLight, Inl TransportFailure), (GetTemperature, Inl TransportFailure)]"
  by code_simp

theorem accessors_raise_before_refresh_witness:
  "temperature (fst (snd (run example_constants unreachable_device [GetLight, GetTemperature]
                            (init example_constants ''1.2.3.4'' None, [])))) = Inl TypeError
   \<and> intensity (fst (snd (run example_constants unreachable_device [GetLight, GetTemperature]
                            (init example_constants ''1.2.3.4'' None, [])))) = Inl TypeError"
proof -
  let ?out = "run example_constants unreachable_device [GetLight, GetTemperature]
                (init example_constants ''1.2.3.4'' None, [])"
  have run: "?out = (fst ?out, fst (snd ?out), snd (snd ?out))"
    by simp
  from accessors_raise_before_refresh [OF run] show ?thesis
    unfolding failing_run_example by simp
qed

text \<open>
  C10 as stated fails for \<^verbatim>\<open>intensity\<close>: on a response without the field \<^verbatim>\<open>state\<close>,
  \<^verbatim>\<open>get_light\<close> raises, and the property returns \<^verbatim>\<open>123.5\<close> although no \<^verbatim>\<open>get_light\<close> has
  succeeded.
\<close>

theorem intensity_counterexample:
  "fst (get_light example_constants stateless_light_device
         (init example_constants ''1.2.3.4'' None, [])) = Inl (KeyError ''state'')
   \<and> intensity (fst (snd (get_light example_constants stateless_light_device
                            (init example_constants ''1.2.3.4'' None, []))))
       = Inr (JFloat (to_binary64 (1235 / 10)))"
  by code_simp

subsection \<open>The life of the cached attributes\<close>

lemma make_call_success:
  assumes "make_call dev st u m x = (Inr b, d', w')"
  shows "dev w' = Body b"
  using assms make_call_world(2) [of dev st u m x b] by simp

lemma exec_success:
  assumes "exec c dev oper (d, w) = (Inr v, d1, w1)"
  shows "oper = GetDeviceInfo \<Longrightarrow> dev w1 = Body (u_device_details d1)"
    and "oper = GetButtonAction \<Longrightarrow> dev w1 = Body (u_button_action d1)"
    and "oper = GetTemperature \<Longrightarrow>
           \<exists>b. dev w1 = Body b \<and> getitem b ''temperature'' = Inr (u_temperature d1)"
    and "oper = GetLight \<Longrightarrow>
           \<exists>b. dev (butlast w1) = Body b \<and> getitem b ''intensity'' = Inr (u_intensity d1)
             \<and> getitem b ''state'' = Inr (u_hour_of_day d1)"
  using assms
  by (auto simp: get_device_info_def get_button_action_def get_temperature_def get_light_def
      Let_def split: prod.splits sum.splits dest!: make_call_success)

text \<open>
  C6, as amended. On a new client \<^verbatim>\<open>everything\<close> is the empty mapping and the other five
  cached attributes are \<^verbatim>\<open>None\<close>. After any calls, \<^verbatim>\<open>device_details\<close>, \<^verbatim>\<open>button_action\<close>,
  \<^verbatim>\<open>_temperature\<close> and \<^verbatim>\<open>_hour_of_day\<close> are still \<^verbatim>\<open>None\<close> unless their refresh succeeded
  once, \<^verbatim>\<open>_intensity\<close> unless a \<^verbatim>\<open>get_light\<close> succeeded or raised \<^verbatim>\<open>KeyError\<close> for the
  field \<^verbatim>\<open>state\<close>, and \<^verbatim>\<open>everything\<close> is still empty unless \<^verbatim>\<open>get_info\<close> was called. A
  successful refresh stores what this response holds, whatever was stored before:
  the body, its field \<^verbatim>\<open>temperature\<close>, its fields \<^verbatim>\<open>intensity\<close> and \<^verbatim>\<open>state\<close>. A call
  of \<^verbatim>\<open>get_info\<close>, successful or not, stores under the name of each endpoint that was
  answered (when the seven names differ) the body of its request, other keys staying as
  they were. Every other call, and a refresh that raises, leaves an attribute as it was,
  but for intensity and \<^verbatim>\<open>everything\<close> as said.
\<close>

theorem cache_lifecycle:
  "cached (init c host sess) = (JNull, [], JNull, JNull, JNull, JNull)
   \<and> (run c dev ops (init c host sess, w) = (outs, d', w') \<longrightarrow>
        ((\<forall>v. (GetDeviceInfo, Inr v) \<notin> set outs) \<longrightarrow> device_details d' = JNull)
      \<and> ((\<forall>v. (GetButtonAction, Inr v) \<notin> set outs) \<longrightarrow> button_action d' = JNull)
      \<and> ((\<forall>v. (GetTemperature, Inr v) \<notin> set outs) \<longrightarrow> u_temperature d' = JNull)
      \<and> ((\<forall>v. (GetLight, Inr v) \<notin> set outs) \<longrightarrow> u_hour_of_day d' = JNull)
      \<and> ((\<forall>v. (GetLight, Inr v) \<notin> set outs) \<and> (GetLight, Inl (KeyError ''state'')) \<notin> set outs \<longrightarrow>
           u_intensity d' = JNull)
      \<and> ((\<forall>r. (GetInfo, r) \<notin> set outs) \<longrightarrow> everything d' = []))
   \<and> (exec c dev oper (d, v) = (Inr x, da, va) \<longrightarrow>
        (oper = GetDeviceInfo \<longrightarrow> dev va = Body (device_details da))
      \<and> (oper = GetButtonAction \<longrightarrow> dev va = Body (button_action da))
      \<and> (oper = GetTemperature \<longrightarrow>
           (\<exists>b. dev va = Body b \<and> getitem b ''temperature'' = Inr (u_temperature da)))
      \<and> (oper = GetLight \<longrightarrow>
           (\<exists>b. dev (butlast va) = Body b \<and> getitem b ''intensity'' = Inr (u_intensity da)
              \<and> getitem b ''state'' = Inr (u_hour_of_day da))))
   \<and> (exec c dev oper (d, v) = (r, da, va) \<longrightarrow>
        (oper \<noteq> GetDeviceInfo \<or> (\<forall>x. r \<noteq> Inr x) \<longrightarrow> device_details da = device_details d)
      \<and> (oper \<noteq> GetButtonAction \<or> (\<forall>x. r \<noteq> Inr x) \<longrightarrow> button_action da = button_action d)
      \<and> (oper \<noteq> GetTemperature \<or> (\<forall>x. r \<noteq> Inr x) \<longrightarrow> u_temperature da = u_temperature d)
      \<and> (oper \<noteq> GetLight \<or> (\<forall>x. r \<noteq> Inr x) \<longrightarrow> u_hour_of_day da = u_hour_of_day d)
      \<and> (oper \<noteq> GetLight \<or> (\<forall>x. r \<noteq> Inr x) \<and> r \<noteq> Inl (KeyError ''state'') \<longrightarrow>
           u_intensity da = u_intensity d)
      \<and> (oper \<noteq> GetInfo \<longrightarrow> everything da = everything d)
      \<and> (oper = GetInfo \<longrightarrow>
           (\<exists>n m. (r = Inr JNull \<and> n = 7 \<and> m = 7 \<or> r = Inl TransportFailure \<and> n = Suc m \<and> m < 7)
              \<and> (\<forall>k. k \<notin> set (take m (info_endpoints c)) \<longrightarrow>
                    map_of (everything da) k = map_of (everything d) k)
              \<and> (\<forall>i<m. \<exists>b. dev (take (length va - n + Suc i) va) = Body b
                     \<and> (distinct (info_endpoints c) \<longrightarrow>
                          map_of (everything da) (info_endpoints c ! i) = Some b)))))"
proof (intro conjI impI)
  show "cached (init c host sess) = (JNull, [], JNull, JNull, JNull, JNull)"
    by (simp add: cached_def init_def)
next
  assume run: "run c dev ops (init c host sess, w) = (outs, d', w')"
  {
    assume "\<forall>v. (GetDeviceInfo, Inr v) \<notin> set outs"
    from run_frame(1) [OF run this] show "device_details d' = JNull"
      by (simp add: device_details_def init_def)
  next
    assume "\<forall>v. (GetButtonAction, Inr v) \<notin> set outs"
    from run_frame(2) [OF run this] show "button_action d' = JNull"
      by (simp add: button_action_def init_def)
  next
    assume "\<forall>v. (GetTemperature, Inr v) \<notin> set outs"
    from run_frame(3) [OF run this] show "u_temperature d' = JNull"
      by (simp add: init_def)
  next
    assume "\<forall>v. (GetLight, Inr v) \<notin> set outs"
    from run_frame(4) [OF run this] show "u_hour_of_day d' = JNull"
      by (simp add: init_def)
  next
    assume "(\<forall>v. (GetLight, Inr v) \<notin> set outs) \<and> (GetLight, Inl (KeyError ''state'')) \<notin> set outs"
    then show "u_intensity d' = JNull"
      using run_frame(5) [OF run] by (simp add: init_def)
  next
    assume "\<forall>r. (GetInfo, r) \<notin> set outs"
    from run_frame(6) [OF run this] show "everything d' = []"
      by (simp add: everything_def init_def)
  }
next
  assume ok: "exec c dev oper (d, v) = (Inr x, da, va)"
  {
    assume "oper = GetDeviceInfo"
    from exec_success(1) [OF ok this] show "dev va = Body (device_details da)"
      by (simp add: device_details_def)
  next
    assume "oper = GetButtonAction"
    from exec_success(2) [OF ok this] show "dev va = Body (button_action da)"
      by (simp add: button_action_def)
  next
    assume "oper = GetTemperature"
    from exec_success(3) [OF ok this]
    show "\<exists>b. dev va = Body b \<and> getitem b ''temperature'' = Inr (u_temperature da)" .
  next
    assume "oper = GetLight"
    from exec_success(4) [OF ok this]
    show "\<exists>b. dev (butlast va) = Body b \<and> getitem b ''intensity'' = Inr (u_intensity da)
              \<and> getitem b ''state'' = Inr (u_hour_of_day da)" .
  }
next
  assume ex: "exec c dev oper (d, v) = (r, da, va)"
  {
    assume "oper \<noteq> GetDeviceInfo \<or> (\<forall>x. r \<noteq> Inr x)"
    from exec_frame(1) [OF ex this] show "device_details da = device_details d"
      by (simp add: device_details_def)
  next
    assume "oper \<noteq> GetButtonAction \<or> (\<forall>x. r \<noteq> Inr x)"
    from exec_frame(2) [OF ex this] show "button_action da = button_action d"
      by (simp add: button_action_def)
  next
    assume "oper \<noteq> GetTemperature \<or> (\<forall>x. r \<noteq> Inr x)"
    from exec_frame(3) [OF ex this] show "u_temperature da = u_temperature d" .
  next
    assume "oper \<noteq> GetLight \<or> (\<forall>x. r \<noteq> Inr x)"
    from exec_frame(4) [OF ex this] show "u_hour_of_day da = u_hour_of_day d" .
  next
    assume "oper \<noteq> GetLight \<or> (\<forall>x. r \<noteq> Inr x) \<and> r \<noteq> Inl (KeyError ''state'')"
    from exec_frame(5) [OF ex this] show "u_intensity da = u_intensity d" .
  next
    assume "oper \<noteq> GetInfo"
    from exec_frame(6) [OF ex this] show "everything da = everything d"
      by (simp add: everything_def)
  next
    assume "oper = GetInfo"
    with ex have "get_info c dev (d, v) = (r, da, va)"
      by simp
    from get_info_sound [OF this] obtain n m where l:
      "n \<le> 7"
      "r = Inr JNull \<and> n = 7 \<and> m = 7 \<or> r = Inl TransportFailure \<and> n = Suc m \<and> dev va = Failure"
      "\<forall>i<m. \<exists>b. dev (take (length va - n + Suc i) va) = Body b
            \<and> (distinct (info_endpoints c) \<longrightarrow>
                 map_of (u_catch_all da) (info_endpoints c ! i) = Some b)"
      "\<forall>k. k \<notin> set (take m (info_endpoints c)) \<longrightarrow>
           map_of (u_catch_all da) k = map_of (u_catch_all d) k"
      by auto
    from l(1,2) have "r = Inr JNull \<and> n = 7 \<and> m = 7 \<or> r = Inl TransportFailure \<and> n = Suc m \<and> m < 7"
      by auto
    with l(3,4)
    show "\<exists>n m. (r = Inr JNull \<and> n = 7 \<and> m = 7 \<or> r = Inl TransportFailure \<and> n = Suc m \<and> m < 7)
              \<and> (\<forall>k. k \<notin> set (take m (info_endpoints c)) \<longrightarrow>
                    map_of (everything da) k = map_of (everything d) k)
              \<and> (\<forall>i<m. \<exists>b. dev (take (length va - n + Suc i) va) = Body b
                     \<and> (distinct (info_endpoints c) \<longrightarrow>
                          map_of (everything da) (info_endpoints c ! i) = Some b))"
      unfolding everything_def by blast
  }
qed


lemma failing_refresh_example:
  "fst (run example_constants unreachable_device [GetDeviceInfo, GetInfo]
          (init example_constants ''1.2.3.4'' None, []))
     = [(GetDeviceInfo, Inl TransportFailure), (GetInfo, Inl TransportFailure)]"
  by code_simp

theorem cache_lifecycle_witness:
  "device_details (fst (snd (run example_constants unreachable_device [GetDeviceInfo, GetInfo]
                               (init example_constants ''1.2.3.4'' None, [])))) = JNull
   \<and> (\<exists>b. temperature_device
             (snd (snd (exec example_constants temperature_device GetTemperature
                          (init example_constants ''1.2.3.4'' None, [])))) = Body b
         \<and> getitem b ''temperature''
             = Inr (u_temperature
                      (fst (snd (exec example_constants temperature_device GetTemperature
                                   (init example_constants ''1.2.3.4'' None, []))))))
   \<and> u_intensity (fst (snd (exec example_constants temperature_device GetTemperature
                              (init example_constants ''1.2.3.4'' None, []))))
       = u_intensity (init example_constants ''1.2.3.4'' None)"
proof -
  let ?st = "(init example_constants ''1.2.3.4'' None, [])"
  let ?run = "run example_constants unreachable_device [GetDeviceInfo, GetInfo] ?st"
  let ?ex = "exec example_constants temperature_device GetTemperature ?st"
  have run: "?run = (fst ?run, fst (snd ?run), snd (snd ?run))"
    by simp
  have none: "\<forall>v. (GetDeviceInfo, Inr v) \<notin> set (fst ?run)"
    unfolding failing_refresh_example by simp
  have a: "device_details (fst (snd ?run)) = JNull"
    by (rule cache_lifecycle [THEN conjunct2, THEN conjunct1, THEN mp, OF run,
          THEN conjunct1, THEN mp, OF none])
  have ex: "?ex = (Inr JNull, fst (snd ?ex), snd (snd ?ex))"
    using get_temperature_example by (metis exec.simps(3) prod.collapse)
  have b: "\<exists>b. temperature_device (snd (snd ?ex)) = Body b
         \<and> getitem b ''temperature'' = Inr (u_temperature (fst (snd ?ex)))"
    by (rule cache_lifecycle [THEN conjunct2, THEN conjunct2, THEN conjunct1, THEN mp, OF ex,
          THEN conjunct2, THEN conjunct2, THEN conjunct1, THEN mp, OF refl])
  have other: "GetTemperature \<noteq> GetLight
      \<or> (\<forall>x. (Inr JNull :: py_error + json) \<noteq> Inr x) \<and> Inr JNull \<noteq> Inl (KeyError ''state'')"
    by simp
  have c: "u_intensity (fst (snd ?ex)) = u_intensity (init example_constants ''1.2.3.4'' None)"
    by (rule cache_lifecycle [THEN conjunct2, THEN conjunct2, THEN conjunct2, THEN mp, OF ex,
          THEN conjunct2, THEN conjunct2, THEN conjunct2, THEN conjunct2, THEN conjunct1,
          THEN mp, OF other])
  from a b c show ?thesis
    by (intro conjI)
qed

text \<open>
  C6 as stated fails for \<^verbatim>\<open>everything\<close>: on a new client, a \<^verbatim>\<open>get_info\<close> whose first
  request is answered and whose second fails raises, and the mapping has the key
  \<^verbatim>\<open>puck\<close> although no \<^verbatim>\<open>get_info\<close> has succeeded.
\<close>

theorem partial_get_info_counterexample:
  "fst (get_info example_constants single_answer_device
         (init example_constants ''1.2.3.4'' None, [])) = Inl TransportFailure
   \<and> everything (fst (snd (get_info example_constants single_answer_device
                             (init example_constants ''1.2.3.4'' None, []))))
       = [(''puck'', JInt 2)]"
  by code_simp

subsection \<open>Endpoint addresses\<close>

lemma get_info_requests:
  assumes "get_info c dev st = (r, d', w')"
  shows "\<exists>n\<le>7. requests w'
           = requests (snd st)
             @ map (info_request (client_session st) (uri (fst st))) (take n (info_endpoints c))"
proof -
  let ?es = "info_endpoints c"
  obtain d w where st: "st = (d, w)" by (cases st)
  obtain s d0 w0 where en: "ensure_session (d, w) = (s, d0, w0)" by (metis prod_cases3)
  note e = ensure_session_sound [OF en]
  have "get_info_loop dev ?es (d0, w0) = (r, d', w')"
    using assms get_info_loop_ensure [of ?es dev st] st en
    by (simp add: get_info_def info_endpoints_def)
  from get_info_loop_sound [OF e(1) this] obtain n where l:
    "n \<le> length ?es" "w' = w0 @ map (info_request s (uri d0)) (take n ?es)"
    by blast
  have "requests w' = requests (snd st)
          @ map (info_request (client_session st) (uri (fst st))) (take n ?es)"
    using l(2) e(3,4,5) by (simp add: st requests_def info_request_def)
  with l(1) show ?thesis
    by auto
qed

lemma exec_requests:
  assumes "exec c dev oper st = (r, d', w')"
  shows "\<exists>n\<le>length (calls_of c oper).
           (oper \<noteq> GetInfo \<longrightarrow> n = length (calls_of c oper))
         \<and> requests w'
             = requests (snd st)
               @ map (request_to (client_session st) (uri (fst st))) (take n (calls_of c oper))"
proof -
  have mc: "requests w1 = requests (snd st) @ [Request (client_session st) m u x]"
    if "make_call dev st u m x = (r1, d1, w1)" for u m x r1 d1 w1
    using make_call_requests [of dev st u m x] that by simp
  have pr: "requests [Printed x] = []" for x
    by (simp add: requests_def)
  show ?thesis
  proof (cases oper)
    case GetInfo
    with assms have "get_info c dev st = (r, d', w')"
      by simp
    from get_info_requests [OF this] obtain n where
      "n \<le> 7" "requests w' = requests (snd st)
         @ map (info_request (client_session st) (uri (fst st))) (take n (info_endpoints c))"
      by blast
    with GetInfo show ?thesis
      by (intro exI [of _ n])
         (simp add: take_map comp_def request_to_def info_request_def)
  next
    case Close
    with assms show ?thesis
      by (cases st) (auto simp: close_def session_close_def requests_def split: option.splits if_splits)
  qed (use assms in
        \<open>auto simp: get_device_info_def get_temperature_def get_button_action_def get_light_def
           enabled_def turn_on_def turn_off_def Let_def request_to_def pr
           split: prod.splits sum.splits dest!: mc\<close>)
qed


lemma exec_uri:
  assumes "exec c dev oper st = (r, d', w')"
  shows "uri d' = uri (fst st)"
proof -
  have mc: "uri d1 = uri (fst st)"
    if "make_call dev st u m x = (r1, d1, w1)" for u m x r1 d1 w1
    using make_call_sound(2) [of dev "fst st" "snd st"] that by simp
  show ?thesis
  proof (cases oper)
    case GetInfo
    obtain d w where st: "st = (d, w)" by (cases st)
    obtain s d0 w0 where en: "ensure_session (d, w) = (s, d0, w0)" by (metis prod_cases3)
    note e = ensure_session_sound [OF en]
    have "get_info_loop dev (info_endpoints c) (d0, w0) = (r, d', w')"
      using assms GetInfo get_info_loop_ensure [of "info_endpoints c" dev st] st en
      by (simp add: get_info_def info_endpoints_def)
    from get_info_loop_sound [OF e(1) this] e(3) show ?thesis
      by (auto simp: st)
  next
    case Close
    with assms show ?thesis
      by (cases st) (auto simp: close_def session_close_def split: option.splits if_splits)
  qed (use assms in
        \<open>auto simp: get_device_info_def get_temperature_def get_button_action_def get_light_def
           enabled_def turn_on_def turn_off_def Let_def
           split: prod.splits sum.splits dest!: mc\<close>)
qed

lemma join_examples:
  "url_str (join (URL ''http://1.2.3.4/api/v1/'') (URL ''light'')) = ''http://1.2.3.4/api/v1/light''"
  "url_str (join (URL ''http://1.2.3.4/api/v1/'') (URL ''/log'')) = ''http://1.2.3.4/log''"
  "url_str (join (URL ''http://1.2.3.4/api/v1/'') (URL ''/log'')) \<noteq> ''http://1.2.3.4/api/v1/'' @ ''/log''"
  "url_str (join (URL ''http://1.2.3.4/api/v1/'') (URL ''../../light'')) = ''http://1.2.3.4/light''"
  "url_str (join (URL ''http://1.2.3.4/api/v1/'') (URL ''http://5.6.7.8/x'')) = ''http://5.6.7.8/x''"
  "url_str (join (URL_build ''http'' ''1.2.3.4'') (URL ''/api/v1/'')) = ''http://1.2.3.4/api/v1/''"
  "join (URL_build ''http'' ''1.2.3.4'') (URL ''/api/v1/'') = URL ''http://1.2.3.4/api/v1/''"
  by code_simp+

text \<open>
  C7. The base URL is made once, by joining \<^verbatim>\<open>http://host\<close> with the prefix, and no
  method changes it. Every request of every method goes to the join of the base URL with
  the relative path of its endpoint. With the resolution of relative references as the
  join, \<^verbatim>\<open>http://1.2.3.4/api/v1/\<close> and \<^verbatim>\<open>light\<close> give \<^verbatim>\<open>http://1.2.3.4/api/v1/light\<close>, and
  a path that begins with a slash, a path with dot segments and a full URL are resolved
  by the rules and not appended.
\<close>

theorem endpoint_urls_joined:
  "uri (init c host sess) = join (URL_build ''http'' host) (URL (API c))
   \<and> (exec c dev oper st = (r, d', w') \<longrightarrow>
        uri d' = uri (fst st)
      \<and> (\<exists>n\<le>length (calls_of c oper).
            (oper \<noteq> GetInfo \<longrightarrow> n = length (calls_of c oper))
          \<and> requests w'
              = requests (snd st)
                @ map (request_to (client_session st) (uri (fst st)))
                    (take n (calls_of c oper))))
   \<and> (API c = ''/api/v1/'' \<longrightarrow>
        uri (init c ''1.2.3.4'' sess) = URL ''http://1.2.3.4/api/v1/''
      \<and> url_str (uri (init c ''1.2.3.4'' sess)) = ''http://1.2.3.4/api/v1/'')
   \<and> url_str (join (URL ''http://1.2.3.4/api/v1/'') (URL ''light''))
       = ''http://1.2.3.4/api/v1/light''
   \<and> url_str (join (URL ''http://1.2.3.4/api/v1/'') (URL ''/log'')) = ''http://1.2.3.4/log''
   \<and> url_str (join (URL ''http://1.2.3.4/api/v1/'') (URL ''/log''))
       \<noteq> ''http://1.2.3.4/api/v1/'' @ ''/log''
   \<and> url_str (join (URL ''http://1.2.3.4/api/v1/'') (URL ''../../light''))
       = ''http://1.2.3.4/light''
   \<and> url_str (join (URL ''http://1.2.3.4/api/v1/'') (URL ''http://5.6.7.8/x''))
       = ''http://5.6.7.8/x''"
proof (intro conjI impI)
  show "uri (init c host sess) = join (URL_build ''http'' host) (URL (API c))"
    by (simp add: init_def)
next
  assume "exec c dev oper st = (r, d', w')"
  then show "uri d' = uri (fst st)"
    by (rule exec_uri)
next
  assume "exec c dev oper st = (r, d', w')"
  then show "\<exists>n\<le>length (calls_of c oper).
            (oper \<noteq> GetInfo \<longrightarrow> n = length (calls_of c oper))
          \<and> requests w'
              = requests (snd st)
                @ map (request_to (client_session st) (uri (fst st)))
                    (take n (calls_of c oper))"
    by (rule exec_requests)
next
  assume "API c = ''/api/v1/''"
  then show "uri (init c ''1.2.3.4'' sess) = URL ''http://1.2.3.4/api/v1/''"
    by (simp only: init_def dingz.simps join_examples(7))
next
  assume "API c = ''/api/v1/''"
  then show "url_str (uri (init c ''1.2.3.4'' sess)) = ''http://1.2.3.4/api/v1/''"
    by (simp only: init_def dingz.simps join_examples(6))
qed (rule join_examples)+


lemma light_url_example:
  "url_str (join (uri (init example_constants ''1.2.3.4'' None)) (URL (LIGHT example_constants)))
     = ''http://1.2.3.4/api/v1/light''"
  by code_simp

theorem endpoint_urls_joined_witness:
  "\<exists>s u. requests (snd (snd (exec example_constants light_device GetLight
                               (init example_constants ''1.2.3.4'' None, []))))
            = [Request s GET u JNull]
     \<and> url_str u = ''http://1.2.3.4/api/v1/light''"
proof -
  let ?st = "(init example_constants ''1.2.3.4'' None, [])"
  let ?out = "exec example_constants light_device GetLight ?st"
  have run: "?out = (fst ?out, fst (snd ?out), snd (snd ?out))"
    by simp
  from endpoint_urls_joined [THEN conjunct2, THEN conjunct1, THEN mp, OF run, THEN conjunct2]
  have "requests (snd (snd ?out))
          = [Request (client_session ?st) GET
               (join (uri (init example_constants ''1.2.3.4'' None))
                  (URL (LIGHT example_constants))) JNull]"
    by (auto simp: request_to_def requests_def)
  with light_url_example show ?thesis
    by blast
qed

end
